theory Spec2Isabelle
  imports Complex_Main
begin

section \<open>Strings, optional values and the external libraries\<close>

text \<open>
  A Python \<open>str\<close> is a sequence of Unicode code points; it is modelled as the list of
  its code points.  A value that may be \<open>None\<close> (an \<open>Optional[str]\<close> argument, a
  database cell that may be \<open>NULL\<close>) is an \<open>option\<close>.
\<close>

type_synonym ustr = "nat list"

type_synonym cell = "ustr option"

text \<open>The code points of an ASCII literal.\<close>

definition ascii :: "string \<Rightarrow> ustr" where
  "ascii s = map of_char s"

text \<open>Python truthiness of an optional string: \<open>None\<close> and \<open>""\<close> are falsy.\<close>

fun truthy :: "cell \<Rightarrow> bool" where
  "truthy None = False"
| "truthy (Some s) = (s \<noteq> [])"

text \<open>The idiom \<open>x or ""\<close>.\<close>

fun or_empty :: "cell \<Rightarrow> ustr" where
  "or_empty None = []"
| "or_empty (Some s) = s"

text \<open>
  The functions of \<open>nlp.py\<close> call into libraries that are not part of the repository:
  \<open>unicodedata.normalize("NFC", _)\<close>, the character classes behind the regular
  expression escapes \<open>\w\<close> and \<open>\s\<close> (for a \<open>str\<close> pattern \<open>\w\<close> is
  ``alphanumeric or underscore'' and \<open>\s\<close> is the class \<open>str.strip\<close> removes),
  \<open>str.lower\<close>, \<open>str.upper\<close>, \<open>phonetics.dmetaphone\<close>, the Devanagari to ITRANS
  transliteration and \<open>rapidfuzz.fuzz.token_set_ratio\<close>.  They are parameters of the
  model, collected in one record.
\<close>

record extlib =
  unicodedata_nfc :: "ustr \<Rightarrow> ustr"
  unicode_isalnum :: "nat \<Rightarrow> bool"
  unicode_isspace :: "nat \<Rightarrow> bool"
  str_lower :: "ustr \<Rightarrow> ustr"
  str_upper :: "ustr \<Rightarrow> ustr"
  dmetaphone :: "ustr \<Rightarrow> ustr \<times> ustr"
  transliterate :: "ustr \<Rightarrow> ustr"
  token_set_ratio :: "ustr \<Rightarrow> ustr \<Rightarrow> real"

section \<open>The text normalizer (\<open>utils/nlp.py\<close>)\<close>

text \<open>\<open>DEVANAGARI_BLOCK = (0x0900, 0x097F)\<close>\<close>

definition in_devanagari_block :: "nat \<Rightarrow> bool" where
  "in_devanagari_block cp = (0x0900 \<le> cp \<and> cp \<le> 0x097F)"

text \<open>\<open>is_devanagari\<close>: the loop returns at the first code point of the block.\<close>

fun is_devanagari :: "ustr \<Rightarrow> bool" where
  "is_devanagari [] = False"
| "is_devanagari (ch # text) = (if in_devanagari_block ch then True else is_devanagari text)"

text \<open>
  \<open>re.sub(r"\s+", " ", text)\<close>: scanning from the left, every maximal run of
  whitespace is replaced by one space.
\<close>

function re_sub_space_runs :: "(nat \<Rightarrow> bool) \<Rightarrow> ustr \<Rightarrow> ustr" where
  "re_sub_space_runs sp [] = []"
| "re_sub_space_runs sp (c # cs) =
     (if sp c then 0x20 # re_sub_space_runs sp (dropWhile sp cs)
      else c # re_sub_space_runs sp cs)"
  by pat_completeness auto
termination
  by (relation "measure (\<lambda>(sp, cs). length cs)")
     (auto simp: less_Suc_eq_le length_dropWhile_le)

text \<open>\<open>str.strip()\<close>: leading and trailing whitespace is removed.\<close>

definition py_strip :: "(nat \<Rightarrow> bool) \<Rightarrow> ustr \<Rightarrow> ustr" where
  "py_strip sp s = rev (dropWhile sp (rev (dropWhile sp s)))"

definition normalize_whitespace :: "extlib \<Rightarrow> cell \<Rightarrow> ustr" where
  "normalize_whitespace L text =
     py_strip (unicode_isspace L) (re_sub_space_runs (unicode_isspace L) (or_empty text))"

text \<open>The escape \<open>\w\<close> of a \<open>str\<close> pattern: alphanumeric, or the underscore.\<close>

definition re_word :: "extlib \<Rightarrow> nat \<Rightarrow> bool" where
  "re_word L c = (unicode_isalnum L c \<or> c = 0x5F)"

text \<open>
  The class \<open>[^\w\s\u0900-\u097F]\<close> is the complement of \<open>punct_kept\<close>;
  \<open>normalize_punct\<close> replaces each of its characters by a space.
\<close>

definition punct_kept :: "extlib \<Rightarrow> nat \<Rightarrow> bool" where
  "punct_kept L c = (re_word L c \<or> unicode_isspace L c \<or> in_devanagari_block c)"

definition normalize_punct :: "extlib \<Rightarrow> cell \<Rightarrow> ustr" where
  "normalize_punct L text = map (\<lambda>c. if punct_kept L c then c else 0x20) (or_empty text)"

definition to_nfc :: "extlib \<Rightarrow> cell \<Rightarrow> ustr" where
  "to_nfc L text = unicodedata_nfc L (or_empty text)"

definition normalize_name :: "extlib \<Rightarrow> cell \<Rightarrow> ustr" where
  "normalize_name L raw =
     (if \<not> truthy raw then []
      else let text = to_nfc L raw;
               text = normalize_punct L (Some text);
               text = normalize_whitespace L (Some text)
           in str_lower L text)"

definition detect_language :: "ustr \<Rightarrow> string" where
  "detect_language text = (if is_devanagari text then ''devanagari'' else ''latin'')"

text \<open>\<open>canonicalize_pan\<close>: \<open>re.sub(r"\s+", "", pan).upper()\<close>.\<close>

definition canonicalize_pan :: "extlib \<Rightarrow> cell \<Rightarrow> ustr" where
  "canonicalize_pan L pan =
     (if \<not> truthy pan then []
      else str_upper L (filter (\<lambda>c. \<not> unicode_isspace L c) (or_empty pan)))"

section \<open>The phonetic encoder (\<open>utils/nlp.py\<close>)\<close>

definition devanagari_to_latin :: "extlib \<Rightarrow> ustr \<Rightarrow> ustr" where
  "devanagari_to_latin L text = (if text = [] then [] else transliterate L text)"

text \<open>\<open>p or s or ""\<close>\<close>

definition first_nonempty :: "ustr \<Rightarrow> ustr \<Rightarrow> ustr" where
  "first_nonempty p s = (if p \<noteq> [] then p else if s \<noteq> [] then s else [])"

definition english_phonetic_key :: "extlib \<Rightarrow> ustr \<Rightarrow> ustr" where
  "english_phonetic_key L text = (case dmetaphone L text of (p, s) \<Rightarrow> first_nonempty p s)"

definition marathi_phonetic_key :: "extlib \<Rightarrow> ustr \<Rightarrow> ustr" where
  "marathi_phonetic_key L text =
     (let latin = devanagari_to_latin L text
      in case dmetaphone L latin of (p, s) \<Rightarrow> first_nonempty p s)"

definition phonetic_key :: "extlib \<Rightarrow> ustr \<Rightarrow> ustr" where
  "phonetic_key L text =
     (if text = [] then []
      else let lang = detect_language text
           in if lang = ''devanagari'' then marathi_phonetic_key L text
              else english_phonetic_key L text)"

text \<open>\<open>int(x)\<close> on a float truncates towards zero.\<close>

definition py_int :: "real \<Rightarrow> int" where
  "py_int x = (if 0 \<le> x then \<lfloor>x\<rfloor> else \<lceil>x\<rceil>)"

definition fuzzy_name_score :: "extlib \<Rightarrow> ustr \<Rightarrow> ustr \<Rightarrow> int" where
  "fuzzy_name_score L a b = py_int (token_set_ratio L a b)"

definition fuzzy_address_score :: "extlib \<Rightarrow> ustr \<Rightarrow> ustr \<Rightarrow> int" where
  "fuzzy_address_score L a b = py_int (token_set_ratio L a b)"

section \<open>Configuration (\<open>config.py\<close>, not among the sources)\<close>

text \<open>
  \<open>search.py\<close> reads its thresholds from \<open>config.THRESHOLDS\<close> and its limits from
  \<open>config.SEARCH\<close>.  The values are not part of the sources; they are parameters of the
  model.  A threshold is a number compared with an integer score; \<open>limit_return_rows\<close>
  is tested for truthiness before it is used, so it may be \<open>None\<close>.
\<close>

record thresholds =
  name_strict :: real
  name_medium :: real
  name_loose :: real
  address_loose :: real
  mobile_exact_required :: bool

record search_params =
  candidate_limit :: nat
  limit_return_rows :: "nat option"

section \<open>Canonical names (\<open>search.py\<close>)\<close>

text \<open>
  \<open>collections.Counter\<close> is a dictionary that keeps its keys in the order of their
  first insertion: an association list.  Counting an element increments its entry or
  appends a new one.
\<close>

fun counter_add :: "'a \<Rightarrow> ('a \<times> nat) list \<Rightarrow> ('a \<times> nat) list" where
  "counter_add k [] = [(k, 1)]"
| "counter_add k ((k', c) # kvs) =
     (if k = k' then (k', Suc c) # kvs else (k', c) # counter_add k kvs)"

definition Counter :: "'a list \<Rightarrow> ('a \<times> nat) list" where
  "Counter xs = fold counter_add xs []"

text \<open>
  \<open>Counter.most_common(n)\<close> is \<open>heapq.nlargest(n, items, key=count)\<close>, which is
  \<open>sorted(items, key=count, reverse=True)[:n]\<close>: a stable sort by descending count.
\<close>

definition most_common :: "nat \<Rightarrow> ('a \<times> nat) list \<Rightarrow> ('a \<times> nat) list" where
  "most_common n kvs = take n (sort_key (\<lambda>kv. - int (snd kv)) kvs)"

text \<open>
  The comprehension \<open>[r[0] for r in rows if r and r[0]]\<close>: a row is a tuple, here the
  list of its fields; the empty tuple and a falsy first field are skipped.
\<close>

fun first_fields :: "cell list list \<Rightarrow> ustr list" where
  "first_fields [] = []"
| "first_fields ([] # rows) = first_fields rows"
| "first_fields ((f # fs) # rows) =
     (if truthy f then or_empty f # first_fields rows else first_fields rows)"

definition pick_canonical_names :: "cell list list \<Rightarrow> ustr list" where
  "pick_canonical_names rows = map fst (most_common 3 (Counter (first_fields rows)))"

section \<open>Candidate verification (\<open>search.py\<close>)\<close>

text \<open>
  A candidate row is the 5-tuple \<open>(name_norm, name_phonetic, address, mobile, pan_upper)\<close>
  that the blocking queries select.
\<close>

type_synonym row5 = "cell \<times> cell \<times> cell \<times> cell \<times> cell"

text \<open>\<open>max(scores, default=d)\<close>\<close>

fun py_max_default :: "int \<Rightarrow> int list \<Rightarrow> int" where
  "py_max_default d [] = d"
| "py_max_default d (x # xs) = fold max xs x"

text \<open>The substring test \<open>a in b\<close> on strings.\<close>

fun py_in :: "ustr \<Rightarrow> ustr \<Rightarrow> bool" where
  "py_in a [] = (a = [])"
| "py_in a (c # b) = (take (length a) (c # b) = a \<or> py_in a b)"

text \<open>The best name similarity of a candidate name against the seeded names.\<close>

definition best_name_score :: "extlib \<Rightarrow> ustr list \<Rightarrow> cell \<Rightarrow> int" where
  "best_name_score L base_names name =
     py_max_default 0 (map (\<lambda>b. fuzzy_name_score L (or_empty name) b) base_names)"

text \<open>The two pieces of evidence of the loose tier, as the code computes them.\<close>

definition addr_ok :: "extlib \<Rightarrow> thresholds \<Rightarrow> cell \<Rightarrow> bool" where
  "addr_ok L TH address =
     (let address_scores = map (\<lambda>adr. fuzzy_address_score L (or_empty address) (or_empty adr))
                               [address]
      in address_loose TH
           \<le> of_int (py_max_default 0 (if address_scores = [] then [0] else address_scores)))"

definition mobile_ok :: "thresholds \<Rightarrow> cell \<Rightarrow> bool" where
  "mobile_ok TH mobile =
     (if \<not> mobile_exact_required TH then True
      else truthy mobile \<and> py_in (or_empty mobile) (or_empty mobile))"

fun verify_candidate :: "extlib \<Rightarrow> thresholds \<Rightarrow> ustr list \<Rightarrow> row5 \<Rightarrow> bool" where
  "verify_candidate L TH base_names (name, phon, address, mobile, pan) =
     (if \<not> truthy name then False
      else let best_name = best_name_score L base_names name
           in if name_strict TH \<le> of_int best_name then True
              else if name_medium TH \<le> of_int best_name then True
              else if name_loose TH \<le> of_int best_name
                   then addr_ok L TH address \<or> mobile_ok TH mobile
              else False)"

section \<open>The data source\<close>

text \<open>
  The DuckDB connection is an external collaborator.  It is modelled as one table
  \<open>transactions\<close> with named columns and rows of text cells (\<open>None\<close> is \<open>NULL\<close>),
  read in table order, together with the statements the code builds for it.  A
  statement that names a column the table does not have fails, with one exception: a
  name in a \<open>WHERE\<close> clause that is no column of the table is resolved to the alias
  of that name in the select list, when there is one.  The only aliased select part the
  code builds is the literal \<open>'' AS alias\<close>.
\<close>

record connection =
  tx_columns :: "string list"
  tx_rows :: "cell list list"

datatype error = Binder_error string

text \<open>A select part is a column or the literal \<open>'' AS alias\<close>.\<close>

datatype select_part = Column string | Empty_as string

text \<open>A condition \<open>col = ?\<close> or \<open>col IN (?, ..., ?)\<close> with its parameters.\<close>

datatype cond = Equals string ustr | In_list string "ustr list"

text \<open>The \<open>WHERE\<close> clause: the conditions joined by \<open>OR\<close>, or \<open>1=0\<close>.\<close>

datatype where_clause = Always_false | Any_of "cond list"

type_synonym parts5 = "select_part \<times> select_part \<times> select_part \<times> select_part \<times> select_part"

datatype statement =
    Pragma_table_info
  | Select_parts parts5 where_clause "nat option"
  | Select_star where_clause "nat option"

fun cond_column :: "cond \<Rightarrow> string" where
  "cond_column (Equals c v) = c"
| "cond_column (In_list c vs) = c"

fun part_columns :: "select_part \<Rightarrow> string list" where
  "part_columns (Column c) = [c]"
| "part_columns (Empty_as a) = []"

fun where_columns :: "where_clause \<Rightarrow> string list" where
  "where_columns Always_false = []"
| "where_columns (Any_of conds) = map cond_column conds"

text \<open>The cell of a row in a named column (\<open>NULL\<close> where the row is too short).\<close>

definition cell_of :: "string list \<Rightarrow> cell list \<Rightarrow> string \<Rightarrow> cell" where
  "cell_of cols row c = (case map_of (zip cols row) c of Some v \<Rightarrow> v | None \<Rightarrow> None)"

text \<open>A comparison with \<open>NULL\<close> is not true.\<close>

fun cond_holds :: "string list \<Rightarrow> cell list \<Rightarrow> cond \<Rightarrow> bool" where
  "cond_holds cols row (Equals c v) =
     (case cell_of cols row c of None \<Rightarrow> False | Some x \<Rightarrow> x = v)"
| "cond_holds cols row (In_list c vs) =
     (case cell_of cols row c of None \<Rightarrow> False | Some x \<Rightarrow> x \<in> set vs)"

fun where_holds :: "string list \<Rightarrow> cell list \<Rightarrow> where_clause \<Rightarrow> bool" where
  "where_holds cols row Always_false = False"
| "where_holds cols row (Any_of conds) = list_ex (cond_holds cols row) conds"

fun apply_limit :: "nat option \<Rightarrow> 'a list \<Rightarrow> 'a list" where
  "apply_limit None rs = rs"
| "apply_limit (Some n) rs = take n rs"

definition missing_columns :: "connection \<Rightarrow> string list \<Rightarrow> string list" where
  "missing_columns con cs = filter (\<lambda>c. c \<notin> set (tx_columns con)) cs"

fun part_value :: "string list \<Rightarrow> cell list \<Rightarrow> select_part \<Rightarrow> cell" where
  "part_value cols row (Column c) = cell_of cols row c"
| "part_value cols row (Empty_as a) = Some []"

fun project5 :: "string list \<Rightarrow> parts5 \<Rightarrow> cell list \<Rightarrow> row5" where
  "project5 cols (p1, p2, p3, p4, p5) row =
     (part_value cols row p1, part_value cols row p2, part_value cols row p3,
      part_value cols row p4, part_value cols row p5)"

fun parts_columns :: "parts5 \<Rightarrow> string list" where
  "parts_columns (p1, p2, p3, p4, p5) =
     part_columns p1 @ part_columns p2 @ part_columns p3 @ part_columns p4 @ part_columns p5"

fun part_aliases :: "select_part \<Rightarrow> string list" where
  "part_aliases (Column c) = []"
| "part_aliases (Empty_as a) = [a]"

fun parts_aliases :: "parts5 \<Rightarrow> string list" where
  "parts_aliases (p1, p2, p3, p4, p5) =
     part_aliases p1 @ part_aliases p2 @ part_aliases p3 @ part_aliases p4 @ part_aliases p5"

text \<open>A condition on an alias of the literal \<open>''\<close> compares the empty string.\<close>

fun alias_cond_holds :: "cond \<Rightarrow> bool" where
  "alias_cond_holds (Equals c v) = (v = [])"
| "alias_cond_holds (In_list c vs) = ([] \<in> set vs)"

definition cond_holds_parts :: "string list \<Rightarrow> string list \<Rightarrow> cell list \<Rightarrow> cond \<Rightarrow> bool" where
  "cond_holds_parts cols aliases row cnd =
     (if cond_column cnd \<in> set cols then cond_holds cols row cnd
      else if cond_column cnd \<in> set aliases then alias_cond_holds cnd
      else False)"

fun where_holds_parts ::
  "string list \<Rightarrow> string list \<Rightarrow> cell list \<Rightarrow> where_clause \<Rightarrow> bool" where
  "where_holds_parts cols aliases row Always_false = False"
| "where_holds_parts cols aliases row (Any_of conds) =
     list_ex (cond_holds_parts cols aliases row) conds"

definition run_select_parts ::
  "connection \<Rightarrow> parts5 \<Rightarrow> where_clause \<Rightarrow> nat option \<Rightarrow> error + row5 list" where
  "run_select_parts con parts w lmt =
     (case missing_columns con (parts_columns parts)
           @ filter (\<lambda>c. c \<notin> set (parts_aliases parts))
                    (missing_columns con (where_columns w)) of
        c # cs \<Rightarrow> Inl (Binder_error c)
      | [] \<Rightarrow> Inr (apply_limit lmt
                 (map (project5 (tx_columns con) parts)
                      (filter (\<lambda>row. where_holds_parts (tx_columns con) (parts_aliases parts)
                                       row w)
                              (tx_rows con)))))"

definition run_select_star ::
  "connection \<Rightarrow> where_clause \<Rightarrow> nat option \<Rightarrow> error + cell list list" where
  "run_select_star con w lmt =
     (case missing_columns con (where_columns w) of
        c # cs \<Rightarrow> Inl (Binder_error c)
      | [] \<Rightarrow> Inr (apply_limit lmt
                 (filter (\<lambda>row. where_holds (tx_columns con) row w) (tx_rows con))))"

text \<open>
  \<open>con.execute(q, params).fetchall()\<close>: the statement is recorded in the log of
  statements sent to the data source, and its rows or its error are returned.
\<close>

type_synonym stmt_log = "statement list"

definition execute_parts ::
  "connection \<Rightarrow> parts5 \<Rightarrow> where_clause \<Rightarrow> nat option \<Rightarrow> stmt_log \<Rightarrow> (error + row5 list) \<times> stmt_log" where
  "execute_parts con parts w lmt lg =
     (run_select_parts con parts w lmt, lg @ [Select_parts parts w lmt])"

definition execute_star ::
  "connection \<Rightarrow> where_clause \<Rightarrow> nat option \<Rightarrow> stmt_log \<Rightarrow> (error + cell list list) \<times> stmt_log" where
  "execute_star con w lmt lg = (run_select_star con w lmt, lg @ [Select_star w lmt])"

section \<open>Blocking, expansion and the two searches (\<open>search.py\<close>)\<close>

text \<open>\<open>_get_table_columns\<close>: \<open>PRAGMA table_info('transactions')\<close>.\<close>

definition get_table_columns :: "connection \<Rightarrow> stmt_log \<Rightarrow> string list \<times> stmt_log" where
  "get_table_columns con lg = (tx_columns con, lg @ [Pragma_table_info])"

text \<open>\<open>"address" if "address" in cols else "'' AS address"\<close>\<close>

definition col_or_empty :: "string list \<Rightarrow> string \<Rightarrow> select_part" where
  "col_or_empty cols c = (if c \<in> set cols then Column c else Empty_as c)"

definition fetch_rows_for_pan ::
  "extlib \<Rightarrow> connection \<Rightarrow> cell \<Rightarrow> stmt_log \<Rightarrow> (error + row5 list) \<times> stmt_log" where
  "fetch_rows_for_pan L con pan lg =
     (let pan_up = canonicalize_pan L pan;
          (cols, lg1) = get_table_columns con lg;
          select_parts = (Column ''name_norm'', col_or_empty cols ''name_phonetic'',
                          col_or_empty cols ''address'', col_or_empty cols ''mobile'',
                          col_or_empty cols ''pan_upper'')
      in execute_parts con select_parts (Any_of [Equals ''pan_upper'' pan_up]) None lg1)"

text \<open>
  A Python set built from a list is modelled by the list without its duplicates; the
  order of a set's elements is used only in the parameter list of an \<open>IN\<close>.
\<close>

definition candidate_block_by_names ::
  "extlib \<Rightarrow> search_params \<Rightarrow> connection \<Rightarrow> ustr list \<Rightarrow> stmt_log \<Rightarrow> (error + row5 list) \<times> stmt_log" where
  "candidate_block_by_names L SP con names lg =
     (let (cols, lg1) = get_table_columns con lg
      in if ''name_phonetic'' \<in> set cols
         then let keys = remdups (map (phonetic_key L) (filter (\<lambda>n. n \<noteq> []) names))
              in if keys = [] then (Inr [], lg1)
                 else execute_parts con
                        (Column ''name_norm'', Column ''name_phonetic'',
                         col_or_empty cols ''address'', col_or_empty cols ''mobile'',
                         col_or_empty cols ''pan_upper'')
                        (Any_of [In_list ''name_phonetic'' keys])
                        (Some (candidate_limit SP)) lg1
         else let norms = remdups (map (\<lambda>n. normalize_name L (Some n))
                                       (filter (\<lambda>n. n \<noteq> []) names))
              in if norms = [] then (Inr [], lg1)
                 else execute_parts con
                        (Column ''name_norm'', Empty_as ''name_phonetic'',
                         col_or_empty cols ''address'', col_or_empty cols ''mobile'',
                         col_or_empty cols ''pan_upper'')
                        (Any_of [In_list ''name_norm'' norms])
                        (Some (candidate_limit SP)) lg1)"

text \<open>\<open>if SP.limit_return_rows\<close>: \<open>None\<close> and \<open>0\<close> are falsy, and no \<open>LIMIT\<close> is added.\<close>

fun return_limit :: "nat option \<Rightarrow> nat option" where
  "return_limit None = None"
| "return_limit (Some n) = (if n = 0 then None else Some n)"

definition expand_all_transactions_for_entities ::
  "extlib \<Rightarrow> search_params \<Rightarrow> connection \<Rightarrow> cell list \<Rightarrow> cell list \<Rightarrow> stmt_log
     \<Rightarrow> (error + cell list list) \<times> stmt_log" where
  "expand_all_transactions_for_entities L SP con pans names lg =
     (let pans1 = map (canonicalize_pan L) (filter truthy pans);
          names1 = remdups (map or_empty (filter truthy names));
          conds = (if pans1 \<noteq> [] then [In_list ''pan_upper'' pans1] else [])
                  @ (if names1 \<noteq> [] then [In_list ''name_norm'' names1] else []);
          w = (if conds \<noteq> [] then Any_of conds else Always_false)
      in execute_star con w (return_limit (limit_return_rows SP)) lg)"

text \<open>The \<open>WHERE\<close> clause that \<open>expand_all_transactions_for_entities\<close> builds.\<close>

definition expand_where :: "extlib \<Rightarrow> cell list \<Rightarrow> cell list \<Rightarrow> where_clause" where
  "expand_where L pans names =
     (let pans1 = map (canonicalize_pan L) (filter truthy pans);
          names1 = remdups (map or_empty (filter truthy names));
          conds = (if pans1 \<noteq> [] then [In_list ''pan_upper'' pans1] else [])
                  @ (if names1 \<noteq> [] then [In_list ''name_norm'' names1] else [])
      in if conds \<noteq> [] then Any_of conds else Always_false)"

fun name_of :: "row5 \<Rightarrow> cell" where
  "name_of (name, phon, address, mobile, pan) = name"

fun pan_of :: "row5 \<Rightarrow> cell" where
  "pan_of (name, phon, address, mobile, pan) = pan"

fun address_of :: "row5 \<Rightarrow> cell" where
  "address_of (name, phon, address, mobile, pan) = address"

fun mobile_of :: "row5 \<Rightarrow> cell" where
  "mobile_of (name, phon, address, mobile, pan) = mobile"

definition search_by_pan ::
  "extlib \<Rightarrow> thresholds \<Rightarrow> search_params \<Rightarrow> connection \<Rightarrow> cell \<Rightarrow> stmt_log
     \<Rightarrow> (error + cell list list) \<times> stmt_log" where
  "search_by_pan L TH SP con pan lg =
     (case fetch_rows_for_pan L con pan lg of
        (Inl e, lg1) \<Rightarrow> (Inl e, lg1)
      | (Inr base_rows, lg1) \<Rightarrow>
          if base_rows = [] then (Inr [], lg1)
          else let base_names = pick_canonical_names (map (\<lambda>r. [name_of r]) base_rows)
               in case candidate_block_by_names L SP con base_names lg1 of
                    (Inl e, lg2) \<Rightarrow> (Inl e, lg2)
                  | (Inr candidates, lg2) \<Rightarrow>
                      let verified = filter (verify_candidate L TH base_names) candidates;
                          all_pans = remdups (filter truthy (map pan_of base_rows));
                          all_names = remdups (filter truthy (map name_of base_rows)
                                               @ map name_of verified)
                      in expand_all_transactions_for_entities L SP con all_pans all_names lg2)"

definition search_by_seed_name ::
  "extlib \<Rightarrow> thresholds \<Rightarrow> search_params \<Rightarrow> connection \<Rightarrow> ustr \<Rightarrow> stmt_log
     \<Rightarrow> (error + cell list list) \<times> stmt_log" where
  "search_by_seed_name L TH SP con seed_name lg =
     (let seed_norm = normalize_name L (Some seed_name);
          base_names = [seed_norm]
      in case candidate_block_by_names L SP con base_names lg of
           (Inl e, lg1) \<Rightarrow> (Inl e, lg1)
         | (Inr candidates, lg1) \<Rightarrow>
             let verified = filter (verify_candidate L TH base_names) candidates;
                 all_names = remdups (map name_of verified @ [Some seed_norm]);
                 pans = filter truthy (map pan_of verified)
             in expand_all_transactions_for_entities L SP con pans all_names lg1)"

section \<open>The normalizer in the words of the specification\<close>

text \<open>
  The steps of the specification, parameterised by the class of characters that step
  (c) keeps: absent or empty input gives the empty string; canonical composition;
  every character outside the class becomes a space; runs of whitespace collapse to one
  space and the ends are trimmed; the result is lower-cased.
\<close>

fun collapse_runs :: "(nat \<Rightarrow> bool) \<Rightarrow> bool \<Rightarrow> ustr \<Rightarrow> ustr" where
  "collapse_runs sp in_run [] = []"
| "collapse_runs sp in_run (c # cs) =
     (if sp c then (if in_run then collapse_runs sp True cs
                    else 0x20 # collapse_runs sp True cs)
      else c # collapse_runs sp False cs)"

fun trim_right :: "(nat \<Rightarrow> bool) \<Rightarrow> ustr \<Rightarrow> ustr" where
  "trim_right sp [] = []"
| "trim_right sp (c # cs) =
     (let r = trim_right sp cs in if r = [] \<and> sp c then [] else c # r)"

definition spec_normalize_name :: "(nat \<Rightarrow> bool) \<Rightarrow> extlib \<Rightarrow> cell \<Rightarrow> ustr" where
  "spec_normalize_name kept L raw =
     (case raw of
        None \<Rightarrow> []
      | Some s \<Rightarrow>
          if s = [] then []
          else str_lower L
                 (trim_right (unicode_isspace L)
                   (dropWhile (unicode_isspace L)
                     (collapse_runs (unicode_isspace L) False
                       (map (\<lambda>c. if kept c then c else 0x20) (unicodedata_nfc L s))))))"

text \<open>Letters, digits, whitespace and the Devanagari block.\<close>

definition spec_kept :: "extlib \<Rightarrow> nat \<Rightarrow> bool" where
  "spec_kept L c = (unicode_isalnum L c \<or> unicode_isspace L c \<or> in_devanagari_block c)"

text \<open>Word characters (alphanumeric or underscore), whitespace and the Devanagari block.\<close>

definition word_kept :: "extlib \<Rightarrow> nat \<Rightarrow> bool" where
  "word_kept L c =
     (unicode_isalnum L c \<or> c = 0x5F \<or> unicode_isspace L c \<or> in_devanagari_block c)"

section \<open>The library tables on ASCII, and a concrete library\<close>

text \<open>
  On ASCII text the library functions are known exactly: canonical composition changes
  nothing, the alphanumeric characters are the digits and the letters, whitespace is
  \<open>\t \n \v \f \r\<close>, the separators \<open>0x1C\<close> to \<open>0x1F\<close> and the space, and
  \<open>str.lower\<close> maps \<open>A\<close> to \<open>Z\<close> onto \<open>a\<close> to \<open>z\<close>, character by character.
\<close>

definition is_ascii :: "ustr \<Rightarrow> bool" where
  "is_ascii s = list_all (\<lambda>c. c < 128) s"

definition ascii_isalnum :: "nat \<Rightarrow> bool" where
  "ascii_isalnum c = ((48 \<le> c \<and> c \<le> 57) \<or> (65 \<le> c \<and> c \<le> 90) \<or> (97 \<le> c \<and> c \<le> 122))"

definition ascii_isspace :: "nat \<Rightarrow> bool" where
  "ascii_isspace c = ((9 \<le> c \<and> c \<le> 13) \<or> (28 \<le> c \<and> c \<le> 32))"

definition ascii_lower :: "nat \<Rightarrow> nat" where
  "ascii_lower c = (if 65 \<le> c \<and> c \<le> 90 then c + 32 else c)"

definition ascii_upper :: "nat \<Rightarrow> nat" where
  "ascii_upper c = (if 97 \<le> c \<and> c \<le> 122 then c - 32 else c)"

text \<open>A library agrees with these tables on ASCII text.\<close>

definition ascii_conformant :: "extlib \<Rightarrow> bool" where
  "ascii_conformant L =
     ((\<forall>s. is_ascii s \<longrightarrow> unicodedata_nfc L s = s)
      \<and> (\<forall>c. c < 128 \<longrightarrow> unicode_isalnum L c = ascii_isalnum c)
      \<and> (\<forall>c. c < 128 \<longrightarrow> unicode_isspace L c = ascii_isspace c)
      \<and> (\<forall>s. is_ascii s \<longrightarrow> str_lower L s = map ascii_lower s))"

text \<open>
  A concrete library for evaluating the model.  Its Unicode tables are CPython's on
  ASCII, on \<open>U+0130\<close> (capital I with dot above, a letter whose lower case is the two
  code points \<open>U+0069 U+0307\<close>) and on \<open>U+0307\<close> (combining dot above, neither
  alphanumeric nor whitespace); strings over these code points that do not contain
  \<open>I\<close> followed by \<open>U+0307\<close> are unchanged by canonical composition.  Its
  \<open>token_set_ratio\<close> has rapidfuzz's values where they are certain (0 when an argument
  is empty, 100 on equal strings with a token, 50 between \<open>ab\<close> and \<open>ac\<close>); the
  phonetic code and the transliteration are small sample tables.
\<close>

definition sample_isalnum :: "nat \<Rightarrow> bool" where
  "sample_isalnum c = (ascii_isalnum c \<or> c = 0x130)"

definition sample_lower_cp :: "nat \<Rightarrow> ustr" where
  "sample_lower_cp c = (if c = 0x130 then [0x69, 0x307] else [ascii_lower c])"

definition sample_dmetaphone :: "ustr \<Rightarrow> ustr \<times> ustr" where
  "sample_dmetaphone s =
     (if s = ascii ''smith'' then (ascii ''SM0'', ascii ''XMT'')
      else if s = ascii ''girI'' then (ascii ''KR'', ascii ''JR'')
      else if s = ascii ''hw'' then ([], ascii ''A'')
      else ([], []))"

definition sample_transliterate :: "ustr \<Rightarrow> ustr" where
  "sample_transliterate s = (if s = [0x917, 0x93F, 0x930, 0x940] then ascii ''girI'' else [])"

definition sample_ratio :: "ustr \<Rightarrow> ustr \<Rightarrow> real" where
  "sample_ratio a b =
     (if a = [] \<or> b = [] then 0
      else if a = b then 100
      else if (a = ascii ''ab'' \<and> b = ascii ''ac'') \<or> (a = ascii ''ac'' \<and> b = ascii ''ab'')
      then 50
      else 0)"

definition sample_lib :: extlib where
  "sample_lib =
     \<lparr> unicodedata_nfc = (\<lambda>s. s),
       unicode_isalnum = sample_isalnum,
       unicode_isspace = ascii_isspace,
       str_lower = (\<lambda>s. concat (map sample_lower_cp s)),
       str_upper = map ascii_upper,
       dmetaphone = sample_dmetaphone,
       transliterate = sample_transliterate,
       token_set_ratio = sample_ratio \<rparr>"

section \<open>Ranking of names\<close>

text \<open>
  The position at which a name is first seen in a list, and the order ``more frequent
  first, among equally frequent names the one seen first''.
\<close>

fun first_seen :: "'a list \<Rightarrow> 'a \<Rightarrow> nat" where
  "first_seen [] x = 0"
| "first_seen (y # ys) x = (if x = y then 0 else Suc (first_seen ys x))"

definition ranks_before :: "'a list \<Rightarrow> 'a \<Rightarrow> 'a \<Rightarrow> bool" where
  "ranks_before xs a b =
     (count_list xs b < count_list xs a
      \<or> (count_list xs a = count_list xs b \<and> first_seen xs a < first_seen xs b))"

text \<open>The distinct elements of a list in the order of their first occurrence.\<close>

fun first_occs :: "'a list \<Rightarrow> 'a list" where
  "first_occs [] = []"
| "first_occs (x # xs) = x # filter (\<lambda>y. y \<noteq> x) (first_occs xs)"

section \<open>Auxiliary notions for whitespace and ASCII text\<close>

text \<open>
  A string is collapsed when each of its whitespace characters is a space that is not
  followed by whitespace.
\<close>

fun collapsed :: "(nat \<Rightarrow> bool) \<Rightarrow> ustr \<Rightarrow> bool" where
  "collapsed sp [] = True"
| "collapsed sp [c] = (sp c \<longrightarrow> c = 0x20)"
| "collapsed sp (c # d # cs) = ((sp c \<longrightarrow> c = 0x20 \<and> \<not> sp d) \<and> collapsed sp (d # cs))"

definition ws :: "(nat \<Rightarrow> bool) \<Rightarrow> ustr \<Rightarrow> ustr" where
  "ws sp s = py_strip sp (re_sub_space_runs sp s)"

definition ascii_kept :: "nat \<Rightarrow> bool" where
  "ascii_kept c = (ascii_isalnum c \<or> c = 0x5F \<or> ascii_isspace c)"

definition ascii_normalize :: "ustr \<Rightarrow> ustr" where
  "ascii_normalize s =
     map ascii_lower (ws ascii_isspace (map (\<lambda>c. if ascii_kept c then c else 0x20) s))"

section \<open>Alphabets on which the library is stable\<close>

text \<open>
  An alphabet is a set of code points that contains the space.  The library is stable on
  it when canonical composition maps text over the alphabet to text over the alphabet and
  leaves a normalized name unchanged, and when lower-casing text over the alphabet acts
  character by character through a map \<open>f\<close> that stays in the alphabet, is idempotent,
  changes no character's being whitespace and maps a character the punctuation filter
  keeps to one it keeps.
\<close>

definition stable_alphabet :: "extlib \<Rightarrow> (nat \<Rightarrow> bool) \<Rightarrow> (nat \<Rightarrow> nat) \<Rightarrow> bool" where
  "stable_alphabet L A f =
     (A 0x20 \<and> unicode_isspace L 0x20 \<and> f 0x20 = 0x20
      \<and> (\<forall>s. list_all A s \<longrightarrow> list_all A (unicodedata_nfc L s))
      \<and> (\<forall>s. list_all A s \<longrightarrow>
             unicodedata_nfc L (normalize_name L (Some s)) = normalize_name L (Some s))
      \<and> (\<forall>s. list_all A s \<longrightarrow> str_lower L s = map f s)
      \<and> (\<forall>c. A c \<longrightarrow>
             A (f c) \<and> f (f c) = f c
             \<and> unicode_isspace L (f c) = unicode_isspace L c
             \<and> (punct_kept L c \<longrightarrow> punct_kept L (f c))))"

text \<open>ASCII together with the Devanagari block.\<close>

definition ascii_or_devanagari :: "nat \<Rightarrow> bool" where
  "ascii_or_devanagari c = (c < 128 \<or> in_devanagari_block c)"

section \<open>Concrete configurations and data\<close>

text \<open>Thresholds in tier order, and thresholds whose strict tier lies below the medium one.\<close>

definition tiered_thresholds :: thresholds where
  "tiered_thresholds = \<lparr> name_strict = 90, name_medium = 80, name_loose = 40,
                          address_loose = 70, mobile_exact_required = True \<rparr>"

definition cx_thresholds :: thresholds where
  "cx_thresholds = \<lparr> name_strict = 40, name_medium = 60, name_loose = 30,
                      address_loose = 70, mobile_exact_required = True \<rparr>"

definition capped_params :: search_params where
  "capped_params = \<lparr> candidate_limit = 10, limit_return_rows = Some 1 \<rparr>"

definition zero_cap_params :: search_params where
  "zero_cap_params = \<lparr> candidate_limit = 10, limit_return_rows = Some 0 \<rparr>"

definition uncapped_params :: search_params where
  "uncapped_params = \<lparr> candidate_limit = 10, limit_return_rows = None \<rparr>"

text \<open>A table without the columns \<open>name_phonetic\<close> and \<open>pan_upper\<close>.\<close>

definition bare_con :: connection where
  "bare_con =
     \<lparr> tx_columns = [''name_norm''],
       tx_rows = [[Some (ascii ''smith'')], [Some (ascii ''jones'')]] \<rparr>"

definition sample_con :: connection where
  "sample_con =
     \<lparr> tx_columns = [''name_norm'', ''name_phonetic'', ''pan_upper''],
       tx_rows = [[Some (ascii ''smith''), Some (ascii ''SM0''), Some (ascii ''ABCDE1234F'')],
                  [Some (ascii ''smyth''), Some (ascii ''SM0''), None],
                  [Some (ascii ''jones''), Some (ascii ''JNS''), Some (ascii ''ZZZZZ9999Z'')]] \<rparr>"

text \<open>A name in mixed script, with punctuation and surplus whitespace.\<close>

definition mixed_name :: ustr where
  "mixed_name = ascii '' Giri_C,  '' @ [0x917, 0x93F, 0x930, 0x940] @ ascii '' ''"

definition sample_rows :: "cell list list" where
  "sample_rows = [[Some (ascii ''b'')], [Some (ascii ''a'')], [None], [], [Some []],
                  [Some (ascii ''a'')], [Some (ascii ''c'')], [Some (ascii ''d'')],
                  [Some (ascii ''d'')], [Some (ascii ''e'')]]"

section \<open>Lemmas about the normalizer\<close>

lemma collapse_runs_re_sub:
  "collapse_runs sp True s = re_sub_space_runs sp (dropWhile sp s)"
  "collapse_runs sp False s = re_sub_space_runs sp s"
  by (induction s) auto

lemma trim_right_rev: "trim_right sp s = rev (dropWhile sp (rev s))"
  by (induction s) (auto simp: dropWhile_append Let_def)

lemma py_strip_trim: "py_strip sp s = trim_right sp (dropWhile sp s)"
  by (simp add: py_strip_def trim_right_rev)

lemma punct_kept_word: "punct_kept L = word_kept L"
  by (auto simp: punct_kept_def word_kept_def re_word_def fun_eq_iff)

lemma normalize_name_empty: "normalize_name L (Some []) = []"
  by (simp add: normalize_name_def)

lemma collapsed_Cons_nonspace: "\<not> sp c \<Longrightarrow> collapsed sp (c # t) = collapsed sp t"
  by (cases t) auto

lemma collapsed_Cons_space:
  "sp c \<Longrightarrow> collapsed sp (c # t) = (c = 0x20 \<and> (t = [] \<or> \<not> sp (hd t)) \<and> collapsed sp t)"
  by (cases t) auto

lemma re_sub_hd: "s \<noteq> [] \<Longrightarrow> \<not> sp (hd s) \<Longrightarrow> re_sub_space_runs sp s \<noteq> [] \<and> hd (re_sub_space_runs sp s) = hd s"
  by (cases s) auto

lemma collapsed_re_sub: "sp 0x20 \<Longrightarrow> collapsed sp (re_sub_space_runs sp s)"
proof (induction sp s rule: re_sub_space_runs.induct)
  case (1 sp)
  then show ?case by simp
next
  case (2 sp c cs)
  show ?case
  proof (cases "sp c")
    case True
    have "re_sub_space_runs sp (dropWhile sp cs) = [] \<or> \<not> sp (hd (re_sub_space_runs sp (dropWhile sp cs)))"
    proof (cases "dropWhile sp cs")
      case Nil
      show ?thesis unfolding Nil by simp
    next
      case (Cons d ds)
      then have "\<not> sp d" by (metis hd_dropWhile list.sel(1) list.distinct(1))
      then show ?thesis unfolding Cons by simp
    qed
    with True 2 show ?thesis by (simp add: collapsed_Cons_space)
  next
    case False
    with 2 show ?thesis by (simp add: collapsed_Cons_nonspace)
  qed
qed

lemma re_sub_collapsed: "collapsed sp t \<Longrightarrow> re_sub_space_runs sp t = t"
proof (induction sp t rule: collapsed.induct)
  case (3 sp c d cs)
  then show ?case by (cases "sp c") auto
qed auto

lemma collapsed_dropWhile: "collapsed sp t \<Longrightarrow> collapsed sp (dropWhile sp t)"
  by (induction sp t rule: collapsed.induct) auto

lemma collapsed_trim_right: "collapsed sp t \<Longrightarrow> collapsed sp (trim_right sp t)"
proof (induction sp t rule: collapsed.induct)
  case (3 sp c d cs)
  then show ?case
    by (cases "trim_right sp (d # cs)") (auto simp: Let_def split: if_splits)
qed (auto simp: Let_def)

lemma trim_right_idem: "trim_right sp (trim_right sp s) = trim_right sp s"
  by (induction s) (auto simp: Let_def)

lemma trim_right_hd: "s \<noteq> [] \<Longrightarrow> \<not> sp (hd s) \<Longrightarrow> trim_right sp s \<noteq> [] \<and> hd (trim_right sp s) = hd s"
  by (cases s) (auto simp: Let_def)

lemma dropWhile_trim_right: "dropWhile sp (trim_right sp (dropWhile sp s)) = trim_right sp (dropWhile sp s)"
proof (cases "dropWhile sp s")
  case Nil
  show ?thesis unfolding Nil by simp
next
  case (Cons d ds)
  then have "\<not> sp d" by (metis hd_dropWhile list.sel(1) list.distinct(1))
  then show ?thesis unfolding Cons by (simp add: Let_def)
qed

lemma py_strip_idem: "py_strip sp (py_strip sp s) = py_strip sp s"
  by (simp add: py_strip_trim dropWhile_trim_right trim_right_idem)

lemma ws_idem: "sp 0x20 \<Longrightarrow> ws sp (ws sp s) = ws sp s"
proof -
  assume sp: "sp 0x20"
  have "collapsed sp (ws sp s)"
    unfolding ws_def py_strip_trim
    by (intro collapsed_trim_right collapsed_dropWhile collapsed_re_sub sp)
  then have "re_sub_space_runs sp (ws sp s) = ws sp s" by (rule re_sub_collapsed)
  then show ?thesis
    by (metis ws_def py_strip_idem)
qed

lemma re_sub_map:
  "(\<And>c. sp (f c) = sp c) \<Longrightarrow> f 0x20 = 0x20
     \<Longrightarrow> re_sub_space_runs sp (map f s) = map f (re_sub_space_runs sp s)"
proof (induction sp s rule: re_sub_space_runs.induct)
  case (2 sp c cs)
  then show ?case by (simp add: dropWhile_map comp_def)
qed simp

lemma py_strip_map:
  assumes "\<And>c. sp (f c) = sp c"
  shows "py_strip sp (map f s) = map f (py_strip sp s)"
  using assms by (simp add: py_strip_def dropWhile_map comp_def rev_map)

lemma ws_map:
  assumes "\<And>c. sp (f c) = sp c" "f 0x20 = 0x20"
  shows "ws sp (map f s) = map f (ws sp s)"
  using assms by (simp add: ws_def re_sub_map py_strip_map)

lemma re_sub_cong:
  "(\<And>c. c \<in> set s \<Longrightarrow> sp c = sp' c) \<Longrightarrow> re_sub_space_runs sp s = re_sub_space_runs sp' s"
proof (induction sp s rule: re_sub_space_runs.induct)
  case (2 sp c cs)
  have dw: "dropWhile sp cs = dropWhile sp' cs"
    using 2(3) by (intro dropWhile_cong) auto
  have "\<And>x. x \<in> set (dropWhile sp' cs) \<Longrightarrow> x \<in> set cs" by (rule set_dropWhileD)
  with 2 dw show ?case by auto
qed simp

lemma set_re_sub: "set (re_sub_space_runs sp s) \<subseteq> insert 0x20 (set s)"
proof (induction sp s rule: re_sub_space_runs.induct)
  case (2 sp c cs)
  have "set (dropWhile sp cs) \<subseteq> set cs" by (auto dest: set_dropWhileD)
  with 2 show ?case by auto
qed simp

lemma set_py_strip: "set (py_strip sp s) \<subseteq> set s"
proof -
  have "\<And>x. x \<in> set (dropWhile sp (rev (dropWhile sp s))) \<Longrightarrow> x \<in> set s"
    by (metis set_dropWhileD set_rev)
  then show ?thesis by (auto simp: py_strip_def)
qed

lemma py_strip_cong:
  "(\<And>c. c \<in> set s \<Longrightarrow> sp c = sp' c) \<Longrightarrow> py_strip sp s = py_strip sp' s"
proof -
  assume a: "\<And>c. c \<in> set s \<Longrightarrow> sp c = sp' c"
  have 1: "dropWhile sp s = dropWhile sp' s" using a by (intro dropWhile_cong) auto
  have "dropWhile sp (rev (dropWhile sp' s)) = dropWhile sp' (rev (dropWhile sp' s))"
    using a by (intro dropWhile_cong) (auto dest: set_dropWhileD)
  with 1 show ?thesis by (simp add: py_strip_def)
qed

lemma ws_cong:
  assumes "\<And>c. c \<in> set s \<Longrightarrow> sp c = sp' c" "sp 0x20 = sp' 0x20"
  shows "ws sp s = ws sp' s"
proof -
  have 1: "re_sub_space_runs sp s = re_sub_space_runs sp' s" using assms(1) by (rule re_sub_cong)
  have "\<And>c. c \<in> set (re_sub_space_runs sp' s) \<Longrightarrow> sp c = sp' c"
    using set_re_sub[of sp' s] assms by auto
  then have "py_strip sp (re_sub_space_runs sp' s) = py_strip sp' (re_sub_space_runs sp' s)"
    by (rule py_strip_cong)
  with 1 show ?thesis by (simp add: ws_def)
qed

lemma is_ascii_set: "is_ascii s = (\<forall>c \<in> set s. c < 128)"
  by (simp add: is_ascii_def list_all_iff)

lemma set_ws: "set (ws sp s) \<subseteq> insert 0x20 (set s)"
  unfolding ws_def using set_py_strip[of sp "re_sub_space_runs sp s"] set_re_sub[of sp s]
  by blast

lemma ascii_lower_facts:
  "ascii_isspace (ascii_lower c) = ascii_isspace c"
  "ascii_lower 0x20 = 0x20"
  "ascii_lower (ascii_lower c) = ascii_lower c"
  "ascii_kept c \<Longrightarrow> ascii_kept (ascii_lower c)"
  "c < 128 \<Longrightarrow> ascii_lower c < 128"
  by (auto simp: ascii_isspace_def ascii_lower_def ascii_kept_def ascii_isalnum_def)

lemma ascii_kept_space: "ascii_kept 0x20"
  by (simp add: ascii_kept_def ascii_isspace_def)

lemma punct_kept_ascii:
  "ascii_conformant L \<Longrightarrow> c < 128 \<Longrightarrow> punct_kept L c = ascii_kept c"
  by (auto simp: ascii_conformant_def punct_kept_def re_word_def ascii_kept_def
        in_devanagari_block_def)

lemma normalize_name_ascii:
  assumes conf: "ascii_conformant L" and asc: "is_ascii s" and ne: "s \<noteq> []"
  shows "normalize_name L (Some s) = ascii_normalize s"
proof -
  let ?ga = "\<lambda>c. if ascii_kept c then c else 0x20"
  let ?p = "map ?ga s"
  have nfc: "unicodedata_nfc L s = s"
    using conf asc by (simp add: ascii_conformant_def)
  have punct: "map (\<lambda>c. if punct_kept L c then c else 0x20) s = ?p"
    using asc punct_kept_ascii[OF conf] by (intro map_cong) (auto simp: is_ascii_set)
  have p_ascii: "\<And>c. c \<in> set ?p \<Longrightarrow> c < 128"
    using asc by (auto simp: is_ascii_set)
  have sp_eq: "\<And>c. c < 128 \<Longrightarrow> unicode_isspace L c = ascii_isspace c"
    using conf by (simp add: ascii_conformant_def)
  have ws_eq: "ws (unicode_isspace L) ?p = ws ascii_isspace ?p"
    using p_ascii sp_eq by (intro ws_cong) auto
  have "\<And>c. c \<in> set (ws ascii_isspace ?p) \<Longrightarrow> c < 128"
    using set_ws[of ascii_isspace ?p] p_ascii by auto
  then have "is_ascii (ws ascii_isspace ?p)" by (simp add: is_ascii_set)
  then have low: "str_lower L (ws ascii_isspace ?p) = map ascii_lower (ws ascii_isspace ?p)"
    using conf by (simp add: ascii_conformant_def)
  have "normalize_name L (Some s)
          = str_lower L (ws (unicode_isspace L)
              (map (\<lambda>c. if punct_kept L c then c else 0x20) (unicodedata_nfc L s)))"
    using ne
    by (simp add: normalize_name_def to_nfc_def normalize_punct_def normalize_whitespace_def
          ws_def)
  also have "\<dots> = map ascii_lower (ws ascii_isspace ?p)"
    unfolding nfc punct ws_eq low ..
  finally show ?thesis by (simp add: ascii_normalize_def)
qed

lemma ascii_normalize_kept: "c \<in> set (ascii_normalize s) \<Longrightarrow> ascii_kept c \<and> (is_ascii s \<longrightarrow> c < 128)"
proof -
  let ?ga = "\<lambda>c. if ascii_kept c then c else 0x20"
  assume "c \<in> set (ascii_normalize s)"
  then obtain d where d: "d \<in> set (ws ascii_isspace (map ?ga s))" "c = ascii_lower d"
    by (auto simp: ascii_normalize_def)
  then have "d \<in> insert 0x20 (set (map ?ga s))" using set_ws by blast
  then have "ascii_kept d \<and> (is_ascii s \<longrightarrow> d < 128)"
    by (auto simp: ascii_kept_space is_ascii_set)
  with d show ?thesis by (auto simp: ascii_lower_facts)
qed

lemma sample_lib_conformant: "ascii_conformant sample_lib"
proof -
  have "\<And>s. is_ascii s \<Longrightarrow> concat (map sample_lower_cp s) = map ascii_lower s"
  proof -
    fix s show "is_ascii s \<Longrightarrow> concat (map sample_lower_cp s) = map ascii_lower s"
      by (induction s) (auto simp: is_ascii_def sample_lower_cp_def)
  qed
  then show ?thesis
    by (auto simp: ascii_conformant_def sample_lib_def sample_isalnum_def)
qed

lemma dropWhile_map_on:
  "(\<And>c. c \<in> set s \<Longrightarrow> sp (f c) = sp c) \<Longrightarrow> dropWhile sp (map f s) = map f (dropWhile sp s)"
proof -
  assume a: "\<And>c. c \<in> set s \<Longrightarrow> sp (f c) = sp c"
  have "dropWhile (sp \<circ> f) s = dropWhile sp s"
    using a by (intro dropWhile_cong) auto
  then show ?thesis by (simp add: dropWhile_map)
qed

lemma re_sub_map_on:
  "(\<And>c. c \<in> set s \<Longrightarrow> sp (f c) = sp c) \<Longrightarrow> f 0x20 = 0x20
     \<Longrightarrow> re_sub_space_runs sp (map f s) = map f (re_sub_space_runs sp s)"
proof (induction sp s rule: re_sub_space_runs.induct)
  case (2 sp c cs)
  have dw: "dropWhile sp (map f cs) = map f (dropWhile sp cs)"
    using 2(3) by (intro dropWhile_map_on) simp
  have sub: "\<And>x. x \<in> set (dropWhile sp cs) \<Longrightarrow> x \<in> set cs" by (rule set_dropWhileD)
  show ?case
  proof (cases "sp c")
    case True
    then have fc: "sp (f c)" using 2(3) by simp
    have "re_sub_space_runs sp (map f (dropWhile sp cs)) = map f (re_sub_space_runs sp (dropWhile sp cs))"
      using True 2(3,4) sub by (intro 2(1)) auto
    with True fc dw 2(4) show ?thesis by simp
  next
    case False
    then have fc: "\<not> sp (f c)" using 2(3) by simp
    have "re_sub_space_runs sp (map f cs) = map f (re_sub_space_runs sp cs)"
      using False 2(3,4) by (intro 2(2)) auto
    with False fc show ?thesis by simp
  qed
qed simp

lemma py_strip_map_on:
  assumes "\<And>c. c \<in> set s \<Longrightarrow> sp (f c) = sp c"
  shows "py_strip sp (map f s) = map f (py_strip sp s)"
proof -
  have 1: "dropWhile sp (map f s) = map f (dropWhile sp s)"
    using assms by (rule dropWhile_map_on)
  have "\<And>c. c \<in> set (rev (dropWhile sp s)) \<Longrightarrow> sp (f c) = sp c"
    using assms by (auto dest: set_dropWhileD)
  then have 2: "dropWhile sp (map f (rev (dropWhile sp s))) = map f (dropWhile sp (rev (dropWhile sp s)))"
    by (rule dropWhile_map_on)
  show ?thesis by (simp add: py_strip_def 1 2 rev_map)
qed

lemma ws_map_on:
  assumes "\<And>c. c \<in> set s \<Longrightarrow> sp (f c) = sp c" and "f 0x20 = 0x20" and "sp 0x20"
  shows "ws sp (map f s) = map f (ws sp s)"
proof -
  have 1: "re_sub_space_runs sp (map f s) = map f (re_sub_space_runs sp s)"
    using assms(1,2) by (rule re_sub_map_on)
  have "\<And>c. c \<in> set (re_sub_space_runs sp s) \<Longrightarrow> sp (f c) = sp c"
    using set_re_sub[of sp s] assms by auto
  then have "py_strip sp (map f (re_sub_space_runs sp s)) = map f (py_strip sp (re_sub_space_runs sp s))"
    by (rule py_strip_map_on)
  with 1 show ?thesis by (simp add: ws_def)
qed

lemma idem_alphabet_core:
  assumes st: "stable_alphabet L A f" and ov: "list_all A (or_empty raw)"
  shows "normalize_name L (Some (normalize_name L raw)) = normalize_name L raw"
proof (cases "truthy raw")
  case False
  then show ?thesis by (simp add: normalize_name_def)
next
  case True
  then obtain x where x: "raw = Some x" "x \<noteq> []" by (cases raw) auto
  with ov have xA: "list_all A x" by simp
  let ?sp = "unicode_isspace L"
  let ?g = "\<lambda>c. if punct_kept L c then c else 0x20"
  let ?p = "map ?g (unicodedata_nfc L x)"
  let ?w = "ws ?sp ?p"
  let ?y = "map f ?w"
  have A32: "A 0x20" and sp32: "?sp 0x20" and f32: "f 0x20 = 0x20"
    using st by (simp_all add: stable_alphabet_def)
  have nfcA: "\<And>s. list_all A s \<Longrightarrow> list_all A (unicodedata_nfc L s)"
    using st by (simp add: stable_alphabet_def)
  have nfc_fix: "\<And>s. list_all A s \<Longrightarrow>
      unicodedata_nfc L (normalize_name L (Some s)) = normalize_name L (Some s)"
    using st by (simp add: stable_alphabet_def)
  have low: "\<And>s. list_all A s \<Longrightarrow> str_lower L s = map f s"
    using st by (simp add: stable_alphabet_def)
  have fA: "\<And>c. A c \<Longrightarrow> A (f c)" and ff: "\<And>c. A c \<Longrightarrow> f (f c) = f c"
    and fsp: "\<And>c. A c \<Longrightarrow> ?sp (f c) = ?sp c"
    and fk: "\<And>c. A c \<Longrightarrow> punct_kept L c \<Longrightarrow> punct_kept L (f c)"
    using st by (simp_all add: stable_alphabet_def)
  have k32: "punct_kept L 0x20" using sp32 by (simp add: punct_kept_def)
  \<comment> \<open>the text before lower-casing: over the alphabet, and made of kept characters\<close>
  have pA: "\<And>c. c \<in> set ?p \<Longrightarrow> A c \<and> punct_kept L c"
    using nfcA[OF xA] A32 k32 by (auto simp: list_all_iff)
  have wA: "\<And>c. c \<in> set ?w \<Longrightarrow> A c \<and> punct_kept L c"
    using set_ws[of ?sp ?p] pA A32 k32 by blast
  then have w_over: "list_all A ?w" by (simp add: list_all_iff)
  have yA: "\<And>c. c \<in> set ?y \<Longrightarrow> A c \<and> punct_kept L c"
    using wA fA fk by auto
  then have y_over: "list_all A ?y" by (simp add: list_all_iff)
  \<comment> \<open>the first normalization\<close>
  have y: "normalize_name L (Some x) = ?y"
    using x(2) low[OF w_over]
    by (simp add: normalize_name_def to_nfc_def normalize_punct_def normalize_whitespace_def
          ws_def)
  \<comment> \<open>each step of the second normalization leaves it unchanged\<close>
  have s1: "unicodedata_nfc L ?y = ?y" using nfc_fix[OF xA] y by simp
  have s2: "map ?g ?y = ?y"
  proof (rule map_idI)
    fix c assume "c \<in> set ?y"
    then have "punct_kept L c" using yA by blast
    then show "?g c = c" by simp
  qed
  have "ws ?sp ?y = map f (ws ?sp ?w)"
    using wA fsp f32 sp32 by (intro ws_map_on) auto
  also have "ws ?sp ?w = ?w" using sp32 by (rule ws_idem)
  finally have s3: "ws ?sp ?y = ?y" .
  have "map f ?y = ?y"
  proof (rule map_idI)
    fix c assume "c \<in> set ?y"
    then obtain d where d: "d \<in> set ?w" "c = f d" by auto
    then have "A d" using wA by blast
    then show "f c = c" using d(2) ff by simp
  qed
  then have s4: "str_lower L ?y = ?y" using low[OF y_over] by simp
  show ?thesis
  proof (cases "?y = []")
    case True
    then show ?thesis using x y by (simp add: normalize_name_def)
  next
    case False
    have "normalize_name L (Some ?y) = str_lower L (ws ?sp (map ?g (unicodedata_nfc L ?y)))"
      using False
      by (simp add: normalize_name_def to_nfc_def normalize_punct_def normalize_whitespace_def
            ws_def)
    also have "\<dots> = ?y" unfolding s1 s2 s3 s4 ..
    finally show ?thesis using x y by simp
  qed
qed

lemma sample_lower_on:
  "list_all ascii_or_devanagari s \<Longrightarrow> str_lower sample_lib s = map ascii_lower s"
  by (induction s)
     (auto simp: sample_lib_def sample_lower_cp_def ascii_or_devanagari_def
        in_devanagari_block_def)

lemma sample_lib_stable: "stable_alphabet sample_lib ascii_or_devanagari ascii_lower"
proof -
  have kept: "\<And>c. ascii_or_devanagari c \<Longrightarrow> punct_kept sample_lib c
                 \<Longrightarrow> punct_kept sample_lib (ascii_lower c)"
    by (auto simp: punct_kept_def re_word_def sample_lib_def sample_isalnum_def
          ascii_isalnum_def ascii_isspace_def ascii_lower_def in_devanagari_block_def)
  have inA: "\<And>c. ascii_or_devanagari c \<Longrightarrow> ascii_or_devanagari (ascii_lower c)"
    by (auto simp: ascii_or_devanagari_def ascii_lower_def in_devanagari_block_def)
  have nfc: "\<And>s. unicodedata_nfc sample_lib s = s" by (simp add: sample_lib_def)
  have sp: "unicode_isspace sample_lib = ascii_isspace" by (simp add: sample_lib_def)
  have 1: "ascii_or_devanagari 0x20" by (simp add: ascii_or_devanagari_def)
  have 2: "ascii_isspace 0x20" by (simp add: ascii_isspace_def)
  have 3: "ascii_lower 0x20 = 0x20" by (rule ascii_lower_facts(2))
  have 4: "\<forall>c. ascii_or_devanagari c \<longrightarrow>
             ascii_or_devanagari (ascii_lower c) \<and> ascii_lower (ascii_lower c) = ascii_lower c
             \<and> ascii_isspace (ascii_lower c) = ascii_isspace c
             \<and> (punct_kept sample_lib c \<longrightarrow> punct_kept sample_lib (ascii_lower c))"
    using kept inA ascii_lower_facts(1,3) by blast
  show ?thesis
    unfolding stable_alphabet_def nfc sp
    using 1 2 3 4 sample_lower_on by blast
qed

lemma ascii_conformant_stable:
  assumes "ascii_conformant L"
  shows "stable_alphabet L (\<lambda>c. c < 128) ascii_lower"
proof -
  have asc: "\<And>s. list_all (\<lambda>c. c < 128) s = is_ascii s" by (simp add: is_ascii_def)
  have nfc: "\<And>s. is_ascii s \<Longrightarrow> unicodedata_nfc L s = s"
    and sp: "\<And>c. c < 128 \<Longrightarrow> unicode_isspace L c = ascii_isspace c"
    and low: "\<And>s. is_ascii s \<Longrightarrow> str_lower L s = map ascii_lower s"
    using assms by (simp_all add: ascii_conformant_def)
  have norm_ascii: "\<And>s. is_ascii s \<Longrightarrow> is_ascii (normalize_name L (Some s))"
  proof -
    fix s assume s: "is_ascii s"
    show "is_ascii (normalize_name L (Some s))"
    proof (cases "s = []")
      case True then show ?thesis by (simp add: normalize_name_def is_ascii_def)
    next
      case False
      then show ?thesis
        using normalize_name_ascii[OF assms s False] ascii_normalize_kept[of _ s] s
        by (auto simp: is_ascii_set)
    qed
  qed
  have kept: "\<And>c. c < 128 \<Longrightarrow> punct_kept L c \<Longrightarrow> punct_kept L (ascii_lower c)"
    using punct_kept_ascii[OF assms] ascii_lower_facts(4,5) by metis
  have sp32: "unicode_isspace L 0x20" using sp[of 32] by (simp add: ascii_isspace_def)
  show ?thesis
    unfolding stable_alphabet_def asc
    using nfc norm_ascii low kept sp32 sp
    by (auto simp: ascii_lower_facts)
qed

lemma normalize_name_idempotent_ascii:
  assumes "ascii_conformant L" and "is_ascii (or_empty raw)"
  shows "normalize_name L (Some (normalize_name L raw)) = normalize_name L raw"
  using ascii_conformant_stable[OF assms(1)] assms(2) unfolding is_ascii_def
  by (rule idem_alphabet_core)

lemma is_devanagari_iff: "is_devanagari text = (\<exists>c \<in> set text. in_devanagari_block c)"
  by (induction "text") auto

section \<open>Lemmas about verification, the counter and the data source\<close>

lemma py_in_refl: "py_in a a"
  by (cases a) auto

lemma py_max_default_Max: "xs \<noteq> [] \<Longrightarrow> py_max_default d xs = Max (set xs)"
proof (cases xs)
  case (Cons x ys)
  have "fold max ys x = Max (set (x # ys))" by (rule Max.set_eq_fold [symmetric])
  with Cons show ?thesis by simp
qed simp

lemma best_name_score_Max:
  "best_name_score L [] name = 0"
  "base_names \<noteq> [] \<Longrightarrow>
     best_name_score L base_names name
       = Max ((\<lambda>b. fuzzy_name_score L (or_empty name) b) ` set base_names)"
  by (simp_all add: best_name_score_def py_max_default_Max)

lemma set_first_occs: "set (first_occs xs) = set xs"
  by (induction xs) auto

lemma distinct_first_occs: "distinct (first_occs xs)"
  by (induction xs) auto

lemma first_occs_snoc:
  "first_occs (xs @ [x]) = (if x \<in> set xs then first_occs xs else first_occs xs @ [x])"
  by (induction xs) auto

lemma counter_add_map:
  "distinct ks \<Longrightarrow>
   counter_add x (map (\<lambda>k. (k, g k)) ks)
     = (if x \<in> set ks then map (\<lambda>k. (k, if k = x then Suc (g k) else g k)) ks
        else map (\<lambda>k. (k, g k)) ks @ [(x, 1)])"
  by (induction ks) auto

lemma Counter_snoc: "Counter (xs @ [x]) = counter_add x (Counter xs)"
  by (simp add: Counter_def)

lemma Counter_eq: "Counter xs = map (\<lambda>k. (k, count_list xs k)) (first_occs xs)"
proof (induction xs rule: rev_induct)
  case Nil
  then show ?case by (simp add: Counter_def)
next
  case (snoc x xs)
  have nin: "x \<notin> set xs \<Longrightarrow> count_list xs x = 0" by (simp add: count_list_0_iff)
  show ?case
    unfolding Counter_snoc snoc.IH
    by (auto simp: counter_add_map distinct_first_occs set_first_occs first_occs_snoc nin)
qed

lemma sorted_wrt_first_occs:
  "sorted_wrt (\<lambda>a b. first_seen xs a < first_seen xs b) (first_occs xs)"
proof (induction xs)
  case Nil
  then show ?case by simp
next
  case (Cons x xs)
  let ?f = "filter (\<lambda>y. y \<noteq> x) (first_occs xs)"
  have "sorted_wrt (\<lambda>a b. first_seen xs a < first_seen xs b) ?f"
    using Cons.IH by (rule sorted_wrt_filter)
  then have "sorted_wrt (\<lambda>a b. first_seen (x # xs) a < first_seen (x # xs) b) ?f"
    by (rule sorted_wrt_mono_rel[rotated]) auto
  then show ?case by auto
qed

lemma sorted_wrt_filter_nth:
  assumes "sorted_wrt B (filter P S)" and "i < j" and "j < length S" and "P (S ! i)" and "P (S ! j)"
  shows "B (S ! i) (S ! j)"
proof -
  have i: "i < length S" using assms by simp
  have S: "S = take i S @ S ! i # drop (Suc i) S" using i by (rule id_take_nth_drop)
  have "S ! j \<in> set (drop (Suc i) S)"
    using assms(2,3) by (auto simp: in_set_conv_nth intro!: exI[of _ "j - Suc i"])
  moreover have "sorted_wrt B (filter P (take i S) @ S ! i # filter P (drop (Suc i) S))"
    using assms(1,4) by (subst (asm) S) simp
  ultimately show ?thesis using assms(5) by (auto simp: sorted_wrt_append)
qed

lemma sorted_wrt_ranked:
  fixes xs :: "'a list"
  defines "R \<equiv> \<lambda>kv kv'. ranks_before xs (fst kv) (fst kv')"
  shows "sorted_wrt R (sort_key (\<lambda>kv. - int (snd kv)) (Counter xs))"
proof -
  let ?key = "\<lambda>kv::'a \<times> nat. - int (snd kv)"
  let ?cs = "Counter xs"
  let ?S = "sort_key ?key ?cs"
  let ?B = "\<lambda>kv kv'. first_seen xs (fst kv) < first_seen xs (fst kv')"
  have snd_eq: "\<And>kv. kv \<in> set ?S \<Longrightarrow> snd kv = count_list xs (fst kv)"
    by (auto simp: Counter_eq)
  have B_cs: "sorted_wrt ?B ?cs"
    unfolding Counter_eq using sorted_wrt_first_occs[of xs] by (simp add: sorted_wrt_map)
  have sorted: "sorted (map ?key ?S)" by (rule sorted_sort_key)
  show ?thesis
    unfolding sorted_wrt_iff_nth_less
  proof (intro allI impI)
    fix i j assume ij: "i < j" "j < length ?S"
    then have i: "i < length ?S" by simp
    have le: "?key (?S ! i) \<le> ?key (?S ! j)"
      using sorted ij i by (auto simp: sorted_iff_nth_mono_less)
    have ci: "snd (?S ! i) = count_list xs (fst (?S ! i))" using i by (intro snd_eq nth_mem)
    have cj: "snd (?S ! j) = count_list xs (fst (?S ! j))" using ij by (intro snd_eq nth_mem)
    show "R (?S ! i) (?S ! j)"
    proof (cases "?key (?S ! i) = ?key (?S ! j)")
      case False
      with le ci cj show ?thesis by (auto simp: R_def ranks_before_def)
    next
      case True
      let ?P = "\<lambda>y. ?key y = ?key (?S ! j)"
      have "filter ?P ?S = filter ?P ?cs" by (rule sort_key_stable)
      moreover have "sorted_wrt ?B (filter ?P ?cs)" using B_cs by (rule sorted_wrt_filter)
      ultimately have "sorted_wrt ?B (filter ?P ?S)" by simp
      then have "?B (?S ! i) (?S ! j)"
        using ij True
        by (rule sorted_wrt_filter_nth[where P = ?P and S = ?S and i = i and j = j]) simp
      with True ci cj show ?thesis by (auto simp: R_def ranks_before_def)
    qed
  qed
qed

lemma Counter_keys: "map fst (Counter xs) = first_occs xs"
  by (simp add: Counter_eq comp_def)

lemma distinct_ranked: "distinct (map fst (sort_key f (Counter xs)))"
proof -
  have "distinct (map fst (Counter xs))"
    by (simp add: Counter_keys distinct_first_occs)
  then have "distinct (Counter xs) \<and> inj_on fst (set (Counter xs))"
    by (simp add: distinct_map)
  then show ?thesis by (simp add: distinct_map)
qed

lemma first_fields_nonempty:
  "(first_fields rows \<noteq> []) = (\<exists>f fs. f # fs \<in> set rows \<and> truthy f)"
  by (induction rows rule: first_fields.induct) auto

lemma apply_limit_Nil: "apply_limit l [] = []"
  by (cases l) simp_all

lemma expand_nothing:
  assumes "filter truthy pans = []" and "filter truthy names = []"
  shows "expand_all_transactions_for_entities L SP con pans names lg
           = (Inr [], lg @ [Select_star Always_false (return_limit (limit_return_rows SP))])"
  using assms
  by (simp add: expand_all_transactions_for_entities_def execute_star_def run_select_star_def
        missing_columns_def apply_limit_Nil)

lemma block_nothing:
  assumes "filter (\<lambda>n. n \<noteq> []) names = []"
  shows "candidate_block_by_names L SP con names lg = (Inr [], lg @ [Pragma_table_info])"
  using assms by (simp add: candidate_block_by_names_def get_table_columns_def)

lemma expand_eq:
  "expand_all_transactions_for_entities L SP con pans names lg
     = execute_star con (expand_where L pans names) (return_limit (limit_return_rows SP)) lg"
  by (simp add: expand_all_transactions_for_entities_def expand_where_def Let_def)

lemma run_select_star_capped:
  "run_select_star con w (Some n) = Inr rs \<Longrightarrow> length rs \<le> n"
  by (auto simp: run_select_star_def split: list.splits)

lemma run_select_star_uncapped:
  "run_select_star con w None = Inr rs \<Longrightarrow>
     rs = filter (\<lambda>row. where_holds (tx_columns con) row w) (tx_rows con)"
  by (auto simp: run_select_star_def split: list.splits)

section \<open>The claims\<close>

subsection \<open>C1: the loose tier of candidate verification\<close>

text \<open>
  C1.  For a candidate row with a non-empty normalized name whose best name similarity
  against the seeded names is at least the loose threshold and below both the medium and
  the strict threshold, \<open>verify_candidate\<close> accepts exactly when the candidate's address
  compared with itself scores at least the address-loose threshold, or mobile matching is
  not required, or the candidate's mobile is non-empty and a substring of itself; so when
  mobile matching is not required every such candidate is accepted.  The thresholds are
  independent configuration values and the strict tier is tested first: the bound by the
  strict threshold is needed when it is configured below the medium one.
\<close>

theorem verify_candidate_loose_tier:
  assumes "truthy name"
    and "name_loose TH \<le> of_int (best_name_score L base_names name)"
    and "of_int (best_name_score L base_names name) < name_medium TH"
    and "of_int (best_name_score L base_names name) < name_strict TH"
  shows "verify_candidate L TH base_names (name, phon, address, mobile, pan)
           = (address_loose TH
                \<le> of_int (fuzzy_address_score L (or_empty address) (or_empty address))
              \<or> \<not> mobile_exact_required TH
              \<or> (truthy mobile \<and> py_in (or_empty mobile) (or_empty mobile)))
         \<and> (\<not> mobile_exact_required TH
              \<longrightarrow> verify_candidate L TH base_names (name, phon, address, mobile, pan))"
  using assms by (auto simp: addr_ok_def mobile_ok_def Let_def)

text \<open>
  The theorem at thresholds in tier order, with the score 50 between \<open>ab\<close> and
  \<open>ac\<close>: a row without address and mobile is rejected, a row with a mobile is accepted.
\<close>

theorem verify_candidate_loose_tier_witness:
  "truthy (Some (ascii ''ab''))
   \<and> name_loose tiered_thresholds \<le> of_int (best_name_score sample_lib [ascii ''ac''] (Some (ascii ''ab'')))
   \<and> of_int (best_name_score sample_lib [ascii ''ac''] (Some (ascii ''ab''))) < name_medium tiered_thresholds
   \<and> of_int (best_name_score sample_lib [ascii ''ac''] (Some (ascii ''ab''))) < name_strict tiered_thresholds
   \<and> \<not> verify_candidate sample_lib tiered_thresholds [ascii ''ac'']
          (Some (ascii ''ab''), None, None, None, None)
   \<and> verify_candidate sample_lib tiered_thresholds [ascii ''ac'']
          (Some (ascii ''ab''), None, None, Some (ascii ''98''), None)"
proof -
  have h: "truthy (Some (ascii ''ab''))"
    "name_loose tiered_thresholds \<le> of_int (best_name_score sample_lib [ascii ''ac''] (Some (ascii ''ab'')))"
    "of_int (best_name_score sample_lib [ascii ''ac''] (Some (ascii ''ab''))) < name_medium tiered_thresholds"
    "of_int (best_name_score sample_lib [ascii ''ac''] (Some (ascii ''ab''))) < name_strict tiered_thresholds"
    by code_simp+
  have e: "\<not> (address_loose tiered_thresholds
            \<le> of_int (fuzzy_address_score sample_lib (or_empty None) (or_empty None))
          \<or> \<not> mobile_exact_required tiered_thresholds
          \<or> (truthy None \<and> py_in (or_empty None) (or_empty None)))"
     "truthy (Some (ascii ''98''))" "py_in (ascii ''98'') (ascii ''98'')"
    by code_simp+
  show ?thesis
    using verify_candidate_loose_tier [OF h, of None None None None]
      verify_candidate_loose_tier [OF h, of None None "Some (ascii ''98'')" None] h e
    by simp
qed

text \<open>
  Without the bound by the strict threshold the statement fails: with strict 40, medium
  60 and loose 30 the score 50 lies between loose and medium, the row has neither address
  nor mobile and mobile matching is required, yet the row is accepted by the strict tier.
\<close>

theorem verify_candidate_loose_tier_counterexample:
  "truthy (Some (ascii ''ab''))
   \<and> name_loose cx_thresholds \<le> of_int (best_name_score sample_lib [ascii ''ac''] (Some (ascii ''ab'')))
   \<and> of_int (best_name_score sample_lib [ascii ''ac''] (Some (ascii ''ab''))) < name_medium cx_thresholds
   \<and> verify_candidate sample_lib cx_thresholds [ascii ''ac''] (Some (ascii ''ab''), None, None, None, None)
   \<and> \<not> (address_loose cx_thresholds
            \<le> of_int (fuzzy_address_score sample_lib (or_empty None) (or_empty None))
          \<or> \<not> mobile_exact_required cx_thresholds
          \<or> (truthy None \<and> py_in (or_empty None) (or_empty None)))"
  by code_simp

subsection \<open>C2: the steps of name normalization\<close>

text \<open>
  C2.  \<open>normalize_name\<close> returns the empty string on absent or empty input and otherwise
  the input after, in order, canonical composition, replacement by a space of every
  character that is not a word character (alphanumeric or underscore), whitespace or a
  code point of the Devanagari block, collapsing of whitespace runs to one space with
  trimming, and lower-casing.
\<close>

theorem normalize_name_steps:
  "normalize_name L raw = spec_normalize_name (word_kept L) L raw"
  by (cases raw)
     (simp_all add: normalize_name_def spec_normalize_name_def to_nfc_def normalize_punct_def
        normalize_whitespace_def py_strip_trim collapse_runs_re_sub punct_kept_word)

theorem normalize_name_steps_witness:
  "normalize_name sample_lib (Some (ascii '' Giri_C,  sanjay'')) = ascii ''giri_c sanjay''
   \<and> spec_normalize_name (word_kept sample_lib) sample_lib (Some (ascii '' Giri_C,  sanjay''))
       = ascii ''giri_c sanjay''"
  using normalize_name_steps [of sample_lib "Some (ascii '' Giri_C,  sanjay'')"]
  by code_simp

text \<open>
  With the class ``letter, digit, whitespace or Devanagari'' the statement fails on the
  underscore, which \<open>\w\<close> keeps: \<open>a_b\<close> stays \<open>a_b\<close>.
\<close>

theorem normalize_name_steps_counterexample:
  "normalize_name sample_lib (Some (ascii ''a_b'')) = ascii ''a_b''
   \<and> spec_normalize_name (spec_kept sample_lib) sample_lib (Some (ascii ''a_b'')) = ascii ''a b''
   \<and> normalize_name sample_lib (Some (ascii ''a_b''))
         \<noteq> spec_normalize_name (spec_kept sample_lib) sample_lib (Some (ascii ''a_b''))"
  by code_simp

subsection \<open>C3: the canonical name set\<close>

text \<open>
  C3.  The canonical names picked from a list of base rows are at most 3 distinct names of
  the rows (as many as there are, up to 3), ordered by descending frequency with ties in
  first-seen order, every name left out ranks after every name picked, and the list is not
  empty whenever some row has a non-empty name.
\<close>

theorem pick_canonical_names_ranked:
  "length (pick_canonical_names rows) \<le> 3
   \<and> length (pick_canonical_names rows) = min 3 (card (set (first_fields rows)))
   \<and> distinct (pick_canonical_names rows)
   \<and> set (pick_canonical_names rows) \<subseteq> set (first_fields rows)
   \<and> sorted_wrt (ranks_before (first_fields rows)) (pick_canonical_names rows)
   \<and> (\<forall>n \<in> set (first_fields rows) - set (pick_canonical_names rows).
         \<forall>r \<in> set (pick_canonical_names rows). ranks_before (first_fields rows) r n)
   \<and> ((\<exists>f fs. f # fs \<in> set rows \<and> truthy f) \<longrightarrow> pick_canonical_names rows \<noteq> [])"
proof -
  let ?xs = "first_fields rows"
  let ?S = "sort_key (\<lambda>kv. - int (snd kv)) (Counter ?xs)"
  let ?R = "\<lambda>kv kv'. ranks_before ?xs (fst kv) (fst kv')"
  have pick: "pick_canonical_names rows = map fst (take 3 ?S)"
    by (simp add: pick_canonical_names_def most_common_def)
  have "length (Counter ?xs) = length (first_occs ?xs)" by (simp add: Counter_eq)
  also have "\<dots> = card (set ?xs)"
    using distinct_card[OF distinct_first_occs[of ?xs]] by (simp add: set_first_occs)
  finally have lenS: "length (Counter ?xs) = card (set ?xs)" .
  have keysS: "fst ` set ?S = set ?xs"
    by (simp add: Counter_eq set_first_occs image_image)
  have dS: "distinct (map fst ?S)" by (rule distinct_ranked)
  have sS: "sorted_wrt ?R ?S" by (rule sorted_wrt_ranked)
  have split: "?S = take 3 ?S @ drop 3 ?S" by simp
  have 1: "length (pick_canonical_names rows) = min 3 (card (set ?xs))"
    by (simp add: pick lenS min.commute)
  have 2: "distinct (pick_canonical_names rows)"
    using dS unfolding pick take_map[symmetric] by (rule distinct_take)
  have 3: "set (pick_canonical_names rows) \<subseteq> set ?xs"
    using keysS set_take_subset[of 3 ?S] by (auto simp: pick)
  have "sorted_wrt ?R (take 3 ?S)" using sS by (rule sorted_wrt_take)
  then have 4: "sorted_wrt (ranks_before ?xs) (pick_canonical_names rows)"
    by (simp add: pick sorted_wrt_map)
  have cross: "\<forall>a \<in> set (take 3 ?S). \<forall>b \<in> set (drop 3 ?S). ?R a b"
    using sS by (metis append_take_drop_id sorted_wrt_append)
  have 5: "\<forall>n \<in> set ?xs - set (pick_canonical_names rows).
             \<forall>r \<in> set (pick_canonical_names rows). ranks_before ?xs r n"
  proof (intro ballI)
    fix n r assume n: "n \<in> set ?xs - set (pick_canonical_names rows)"
      and r: "r \<in> set (pick_canonical_names rows)"
    from n have "n \<in> fst ` set ?S" unfolding keysS by blast
    then have "\<exists>b \<in> set ?S. fst b = n" by (simp add: image_iff Bex_def)
    then obtain b where b: "b \<in> set ?S" "fst b = n" by blast
    from n have "n \<notin> fst ` set (take 3 ?S)" unfolding pick by simp
    with b(2) have "b \<notin> set (take 3 ?S)" by (auto simp: image_iff)
    moreover have "set ?S = set (take 3 ?S) \<union> set (drop 3 ?S)"
      by (metis append_take_drop_id set_append)
    ultimately have bd: "b \<in> set (drop 3 ?S)" using b(1) by blast
    from r have "r \<in> fst ` set (take 3 ?S)" unfolding pick by simp
    then have "\<exists>a \<in> set (take 3 ?S). fst a = r" by (simp add: image_iff Bex_def)
    then obtain a where a: "a \<in> set (take 3 ?S)" "fst a = r" by blast
    from cross a(1) bd have "?R a b" by blast
    with a b show "ranks_before ?xs r n" by simp
  qed
  have 6: "(\<exists>f fs. f # fs \<in> set rows \<and> truthy f) \<longrightarrow> pick_canonical_names rows \<noteq> []"
  proof
    assume "\<exists>f fs. f # fs \<in> set rows \<and> truthy f"
    then have "?xs \<noteq> []" by (simp add: first_fields_nonempty)
    then have "card (set ?xs) > 0" by (simp add: card_gt_0_iff)
    with 1 show "pick_canonical_names rows \<noteq> []" by auto
  qed
  from 1 2 3 4 5 6 show ?thesis by simp
qed

theorem pick_canonical_names_ranked_witness:
  "pick_canonical_names sample_rows = [ascii ''a'', ascii ''d'', ascii ''b'']
   \<and> (\<exists>f fs. f # fs \<in> set sample_rows \<and> truthy f)
   \<and> sorted_wrt (ranks_before (first_fields sample_rows)) [ascii ''a'', ascii ''d'', ascii ''b'']
   \<and> ranks_before (first_fields sample_rows) (ascii ''b'') (ascii ''c'')
   \<and> ranks_before (first_fields sample_rows) (ascii ''b'') (ascii ''e'')"
proof -
  have v: "pick_canonical_names sample_rows = [ascii ''a'', ascii ''d'', ascii ''b'']"
    by code_simp
  have "[Some (ascii ''b'')] \<in> set sample_rows \<and> truthy (Some (ascii ''b''))"
    by code_simp
  then have e: "\<exists>f fs. f # fs \<in> set sample_rows \<and> truthy f" by blast
  have out: "ascii ''c'' \<in> set (first_fields sample_rows) - set [ascii ''a'', ascii ''d'', ascii ''b'']"
    "ascii ''e'' \<in> set (first_fields sample_rows) - set [ascii ''a'', ascii ''d'', ascii ''b'']"
    by code_simp+
  have picked: "ascii ''b'' \<in> set [ascii ''a'', ascii ''d'', ascii ''b'']" by simp
  have all: "sorted_wrt (ranks_before (first_fields sample_rows)) [ascii ''a'', ascii ''d'', ascii ''b'']
      \<and> (\<forall>n \<in> set (first_fields sample_rows) - set [ascii ''a'', ascii ''d'', ascii ''b''].
            \<forall>r \<in> set [ascii ''a'', ascii ''d'', ascii ''b'']. ranks_before (first_fields sample_rows) r n)"
    using pick_canonical_names_ranked [of sample_rows] unfolding v by blast
  from all out picked
  have "ranks_before (first_fields sample_rows) (ascii ''b'') (ascii ''c'')"
    "ranks_before (first_fields sample_rows) (ascii ''b'') (ascii ''e'')"
    by blast+
  with v e all show ?thesis by blast
qed

text \<open>
  Rows alone do not make the list non-empty: rows whose name is empty or \<open>NULL\<close> are
  skipped by the comprehension.
\<close>

theorem pick_canonical_names_ranked_counterexample:
  "[[Some []], [None]] \<noteq> ([] :: cell list list) \<and> pick_canonical_names [[Some []], [None]] = []"
  by code_simp

subsection \<open>C4: closure expansion of nothing\<close>

text \<open>
  C4.  When no identifier and no name passed to closure expansion is non-empty, the
  statement sent is \<open>SELECT * FROM transactions WHERE 1=0\<close> and the result is the empty
  row list, whatever the table holds.
\<close>

theorem expand_empty_sets:
  assumes "\<forall>p \<in> set pans. \<not> truthy p" and "\<forall>n \<in> set names. \<not> truthy n"
  shows "expand_all_transactions_for_entities L SP con pans names lg
           = (Inr [], lg @ [Select_star Always_false (return_limit (limit_return_rows SP))])"
proof -
  have "filter truthy pans = []" "filter truthy names = []"
    using assms by (simp_all add: filter_empty_conv)
  then show ?thesis by (rule expand_nothing)
qed

theorem expand_empty_sets_witness:
  "expand_all_transactions_for_entities sample_lib zero_cap_params sample_con
        [None, Some []] [Some []] []
     = (Inr [], [Select_star Always_false None])"
proof -
  have h: "\<forall>p \<in> set [None, Some []]. \<not> truthy p" "\<forall>n \<in> set [Some []]. \<not> truthy n"
    by simp_all
  have "return_limit (limit_return_rows zero_cap_params) = None" by code_simp
  then show ?thesis
    using expand_empty_sets [OF h, of sample_lib zero_cap_params sample_con "[]"] by simp
qed

subsection \<open>C5: blocking on no names\<close>

text \<open>
  C5.  When the seeded name list is empty or holds only empty strings, candidate blocking
  returns the empty candidate list and sends no \<open>SELECT\<close>; the only statement it sends to
  the data source is the schema introspection \<open>PRAGMA table_info('transactions')\<close>.
\<close>

theorem blocking_empty_names:
  assumes "\<forall>n \<in> set names. n = []"
  shows "candidate_block_by_names L SP con names lg = (Inr [], lg @ [Pragma_table_info])"
proof -
  have "filter (\<lambda>n. n \<noteq> []) names = []"
    using assms by (simp add: filter_empty_conv)
  then show ?thesis by (rule block_nothing)
qed

theorem blocking_empty_names_witness:
  "candidate_block_by_names sample_lib capped_params sample_con [[], []] []
     = (Inr [], [Pragma_table_info])"
proof -
  have h: "\<forall>n \<in> set [[], []]. n = ([]::ustr)" by simp
  show ?thesis
    using blocking_empty_names [OF h, of sample_lib capped_params sample_con "[]"] by simp
qed

text \<open>
  The data source is not left alone: the introspection statement is executed before the
  names are looked at.
\<close>

theorem blocking_empty_names_counterexample:
  "candidate_block_by_names sample_lib capped_params sample_con [] []
     = (Inr [], [Pragma_table_info])
   \<and> snd (candidate_block_by_names sample_lib capped_params sample_con [] []) \<noteq> []"
  by code_simp

subsection \<open>C6: the phonetic key\<close>

text \<open>
  C6.  \<open>phonetic_key\<close> returns the empty string on empty input; otherwise it applies
  the double-metaphone function to the transliteration of the text when the text is
  detected as Devanagari and to the text itself when not, and returns the primary code if
  it is non-empty, else the secondary code, else the empty string.
\<close>

theorem phonetic_key_routes:
  "phonetic_key L text =
     (if text = [] then []
      else case dmetaphone L (if is_devanagari text then transliterate L text else text) of
             (p, s) \<Rightarrow> if p \<noteq> [] then p else if s \<noteq> [] then s else [])"
  by (simp add: phonetic_key_def detect_language_def marathi_phonetic_key_def
        english_phonetic_key_def devanagari_to_latin_def first_nonempty_def
        split: prod.splits)

theorem phonetic_key_routes_witness:
  "phonetic_key sample_lib [0x917, 0x93F, 0x930, 0x940] = ascii ''KR''
   \<and> phonetic_key sample_lib (ascii ''smith'') = ascii ''SM0''
   \<and> phonetic_key sample_lib (ascii ''hw'') = ascii ''A''
   \<and> phonetic_key sample_lib (ascii ''x'') = []
   \<and> phonetic_key sample_lib [] = []"
proof -
  have "is_devanagari [0x917, 0x93F, 0x930, 0x940]" "\<not> is_devanagari (ascii ''smith'')"
    "\<not> is_devanagari (ascii ''hw'')" "\<not> is_devanagari (ascii ''x'')"
    by code_simp+
  moreover have "dmetaphone sample_lib (transliterate sample_lib [0x917, 0x93F, 0x930, 0x940])
                   = (ascii ''KR'', ascii ''JR'')"
    "dmetaphone sample_lib (ascii ''smith'') = (ascii ''SM0'', ascii ''XMT'')"
    "dmetaphone sample_lib (ascii ''hw'') = ([], ascii ''A'')"
    "dmetaphone sample_lib (ascii ''x'') = ([], [])"
    by code_simp+
  moreover have "ascii ''KR'' \<noteq> []" "ascii ''SM0'' \<noteq> []" "ascii ''A'' \<noteq> []"
    "ascii ''smith'' \<noteq> []" "ascii ''hw'' \<noteq> []" "ascii ''x'' \<noteq> []"
    by code_simp+
  ultimately show ?thesis
    using phonetic_key_routes [of sample_lib "[0x917, 0x93F, 0x930, 0x940]"]
      phonetic_key_routes [of sample_lib "ascii ''smith''"]
      phonetic_key_routes [of sample_lib "ascii ''hw''"]
      phonetic_key_routes [of sample_lib "ascii ''x''"]
      phonetic_key_routes [of sample_lib "[]"]
    by (simp del: is_devanagari.simps)
qed

subsection \<open>C7: the row cap of closure expansion\<close>

text \<open>
  C7.  When \<open>limit_return_rows\<close> is configured as a positive number, closure expansion
  returns at most that many rows.  When \<open>limit_return_rows\<close> is unset or 0 the setting
  is falsy: the statement is sent without a \<open>LIMIT\<close> and every row that satisfies the
  \<open>WHERE\<close> clause is returned.
\<close>

theorem expand_row_cap:
  "(\<forall>n rs. limit_return_rows SP = Some n \<and> 0 < n
            \<and> fst (expand_all_transactions_for_entities L SP con pans names lg) = Inr rs
          \<longrightarrow> length rs \<le> n)
   \<and> (limit_return_rows SP = None \<or> limit_return_rows SP = Some 0 \<longrightarrow>
        snd (expand_all_transactions_for_entities L SP con pans names lg)
          = lg @ [Select_star (expand_where L pans names) None]
        \<and> (\<forall>rs. fst (expand_all_transactions_for_entities L SP con pans names lg) = Inr rs
              \<longrightarrow> rs = filter (\<lambda>row. where_holds (tx_columns con) row
                                        (expand_where L pans names))
                              (tx_rows con)))"
proof (intro conjI allI impI)
  fix n rs
  assume a: "limit_return_rows SP = Some n \<and> 0 < n
      \<and> fst (expand_all_transactions_for_entities L SP con pans names lg) = Inr rs"
  then have "return_limit (limit_return_rows SP) = Some n" by simp
  with a have "run_select_star con (expand_where L pans names) (Some n) = Inr rs"
    by (simp add: expand_eq execute_star_def)
  then show "length rs \<le> n" by (rule run_select_star_capped)
next
  assume "limit_return_rows SP = None \<or> limit_return_rows SP = Some 0"
  then have "return_limit (limit_return_rows SP) = None" by auto
  then show "snd (expand_all_transactions_for_entities L SP con pans names lg)
          = lg @ [Select_star (expand_where L pans names) None]"
    by (simp add: expand_eq execute_star_def)
next
  fix rs
  assume "limit_return_rows SP = None \<or> limit_return_rows SP = Some 0"
    and r: "fst (expand_all_transactions_for_entities L SP con pans names lg) = Inr rs"
  then have "return_limit (limit_return_rows SP) = None" by auto
  with r have "run_select_star con (expand_where L pans names) None = Inr rs"
    by (simp add: expand_eq execute_star_def)
  then show "rs = filter (\<lambda>row. where_holds (tx_columns con) row (expand_where L pans names))
                         (tx_rows con)"
    by (rule run_select_star_uncapped)
qed

text \<open>
  On a table with two matching rows: one row under the cap 1, both rows and no
  \<open>LIMIT\<close> when the cap is unset, and likewise when it is 0.
\<close>

theorem expand_row_cap_witness:
  "fst (expand_all_transactions_for_entities sample_lib capped_params sample_con []
            [Some (ascii ''smith''), Some (ascii ''jones'')] [])
     = Inr [[Some (ascii ''smith''), Some (ascii ''SM0''), Some (ascii ''ABCDE1234F'')]]
   \<and> length [[Some (ascii ''smith''), Some (ascii ''SM0''), Some (ascii ''ABCDE1234F'')]] \<le> (1::nat)
   \<and> expand_all_transactions_for_entities sample_lib uncapped_params sample_con []
            [Some (ascii ''smith''), Some (ascii ''jones'')] []
     = (Inr [[Some (ascii ''smith''), Some (ascii ''SM0''), Some (ascii ''ABCDE1234F'')],
             [Some (ascii ''jones''), Some (ascii ''JNS''), Some (ascii ''ZZZZZ9999Z'')]],
        [Select_star (Any_of [In_list ''name_norm'' [ascii ''smith'', ascii ''jones'']]) None])
   \<and> expand_all_transactions_for_entities sample_lib zero_cap_params sample_con []
            [Some (ascii ''smith''), Some (ascii ''jones'')] []
     = (Inr [[Some (ascii ''smith''), Some (ascii ''SM0''), Some (ascii ''ABCDE1234F'')],
             [Some (ascii ''jones''), Some (ascii ''JNS''), Some (ascii ''ZZZZZ9999Z'')]],
        [Select_star (Any_of [In_list ''name_norm'' [ascii ''smith'', ascii ''jones'']]) None])"
proof -
  let ?names = "[Some (ascii ''smith''), Some (ascii ''jones'')]"
  let ?two = "[[Some (ascii ''smith''), Some (ascii ''SM0''), Some (ascii ''ABCDE1234F'')],
               [Some (ascii ''jones''), Some (ascii ''JNS''), Some (ascii ''ZZZZZ9999Z'')]]"
  have a: "limit_return_rows capped_params = Some 1" by code_simp
  have b: "fst (expand_all_transactions_for_entities sample_lib capped_params sample_con []
            ?names [])
       = Inr [[Some (ascii ''smith''), Some (ascii ''SM0''), Some (ascii ''ABCDE1234F'')]]"
    by code_simp
  have u: "limit_return_rows uncapped_params = None" by code_simp
  have z: "limit_return_rows zero_cap_params = Some 0" by code_simp
  have w: "expand_where sample_lib [] ?names
             = Any_of [In_list ''name_norm'' [ascii ''smith'', ascii ''jones'']]"
    by code_simp
  have f: "filter (\<lambda>row. where_holds (tx_columns sample_con) row
                 (Any_of [In_list ''name_norm'' [ascii ''smith'', ascii ''jones'']]))
             (tx_rows sample_con) = ?two"
    by code_simp
  have ru: "fst (expand_all_transactions_for_entities sample_lib uncapped_params sample_con []
            ?names []) = Inr ?two" by code_simp
  have rz: "fst (expand_all_transactions_for_entities sample_lib zero_cap_params sample_con []
            ?names []) = Inr ?two" by code_simp
  have 1: "length [[Some (ascii ''smith''), Some (ascii ''SM0''), Some (ascii ''ABCDE1234F'')]] \<le> (1::nat)"
    using expand_row_cap [of capped_params sample_lib sample_con "[]" ?names "[]"] a b by blast
  have 2: "snd (expand_all_transactions_for_entities sample_lib uncapped_params sample_con []
            ?names []) = [Select_star (Any_of [In_list ''name_norm'' [ascii ''smith'', ascii ''jones'']]) None]"
    using expand_row_cap [of uncapped_params sample_lib sample_con "[]" ?names "[]"] u w by simp
  have 3: "snd (expand_all_transactions_for_entities sample_lib zero_cap_params sample_con []
            ?names []) = [Select_star (Any_of [In_list ''name_norm'' [ascii ''smith'', ascii ''jones'']]) None]"
    using expand_row_cap [of zero_cap_params sample_lib sample_con "[]" ?names "[]"] z w by simp
  show ?thesis using b 1 ru 2 rz 3 by (simp add: prod_eq_iff)
qed

text \<open>
  With \<open>limit_return_rows = 0\<close> the two matching rows are both returned.
\<close>

theorem expand_row_cap_counterexample:
  "limit_return_rows zero_cap_params = Some 0
   \<and> (\<exists>rs. fst (expand_all_transactions_for_entities sample_lib zero_cap_params sample_con []
                   [Some (ascii ''smith''), Some (ascii ''jones'')] []) = Inr rs
            \<and> \<not> length rs \<le> 0)"
proof -
  have "fst (expand_all_transactions_for_entities sample_lib zero_cap_params sample_con []
                   [Some (ascii ''smith''), Some (ascii ''jones'')] [])
        = Inr [[Some (ascii ''smith''), Some (ascii ''SM0''), Some (ascii ''ABCDE1234F'')],
               [Some (ascii ''jones''), Some (ascii ''JNS''), Some (ascii ''ZZZZZ9999Z'')]]"
    by code_simp
  moreover have "limit_return_rows zero_cap_params = Some 0" by code_simp
  ultimately show ?thesis by simp
qed

subsection \<open>C8: idempotence of name normalization\<close>

text \<open>
  C8.  \<open>normalize_name\<close> is idempotent on every input over an alphabet on which the
  library is stable: canonical composition stays in the alphabet and leaves a normalized
  name unchanged, and lower-casing acts character by character, is idempotent, changes no
  character's being whitespace and maps every character the punctuation filter keeps to a
  character it keeps.  ASCII together with the Devanagari block is such an alphabet.
\<close>

theorem normalize_name_idempotent_alphabet:
  assumes "stable_alphabet L A f" and "list_all A (or_empty raw)"
  shows "normalize_name L (Some (normalize_name L raw)) = normalize_name L raw"
  using assms by (rule idem_alphabet_core)

text \<open>
  The theorem on ASCII and Devanagari text, at a name in mixed script.
\<close>

theorem normalize_name_idempotent_alphabet_witness:
  "stable_alphabet sample_lib ascii_or_devanagari ascii_lower
   \<and> list_all ascii_or_devanagari (or_empty (Some mixed_name))
   \<and> normalize_name sample_lib (Some mixed_name)
       = ascii ''giri_c '' @ [0x917, 0x93F, 0x930, 0x940]
   \<and> normalize_name sample_lib (Some (normalize_name sample_lib (Some mixed_name)))
       = ascii ''giri_c '' @ [0x917, 0x93F, 0x930, 0x940]"
proof -
  have a: "list_all ascii_or_devanagari (or_empty (Some mixed_name))" by code_simp
  have b: "normalize_name sample_lib (Some mixed_name)
       = ascii ''giri_c '' @ [0x917, 0x93F, 0x930, 0x940]" by code_simp
  show ?thesis
    using normalize_name_idempotent_alphabet [OF sample_lib_stable a] a b sample_lib_stable
    by simp
qed


text \<open>
  Without the condition on lower-casing idempotence fails: \<open>U+0130\<close> is a letter and is
  kept, lower-casing turns it into \<open>i\<close> followed by the combining dot \<open>U+0307\<close>,
  which the punctuation filter does not keep, and a second normalization replaces the
  combining dot by a space that is trimmed.
\<close>

theorem normalize_name_idempotent_alphabet_counterexample:
  "punct_kept sample_lib 0x130
   \<and> str_lower sample_lib [0x130] = [0x69, 0x307]
   \<and> \<not> punct_kept sample_lib 0x307
   \<and> normalize_name sample_lib (Some [0x130]) = [0x69, 0x307]
   \<and> normalize_name sample_lib (Some (normalize_name sample_lib (Some [0x130]))) = [0x69]
   \<and> normalize_name sample_lib (Some (normalize_name sample_lib (Some [0x130])))
         \<noteq> normalize_name sample_lib (Some [0x130])"
  by code_simp

subsection \<open>C9: the empty seed name\<close>

text \<open>
  C9.  \<open>search_by_seed_name\<close> on the empty seed name returns the empty row list without
  an error, after the schema introspection and the \<open>WHERE 1=0\<close> retrieval.
\<close>

theorem search_by_seed_name_empty:
  "search_by_seed_name L TH SP con [] lg
     = (Inr [], lg @ [Pragma_table_info,
                      Select_star Always_false (return_limit (limit_return_rows SP))])"
proof -
  have seed: "normalize_name L (Some []) = []" by (rule normalize_name_empty)
  have block: "candidate_block_by_names L SP con [[]] lg = (Inr [], lg @ [Pragma_table_info])"
    by (rule block_nothing) simp
  have expand: "expand_all_transactions_for_entities L SP con [] [Some []] (lg @ [Pragma_table_info])
      = (Inr [], (lg @ [Pragma_table_info])
                 @ [Select_star Always_false (return_limit (limit_return_rows SP))])"
    by (rule expand_nothing) simp_all
  show ?thesis
    by (simp add: search_by_seed_name_def seed block expand)
qed

theorem search_by_seed_name_empty_witness:
  "search_by_seed_name sample_lib tiered_thresholds capped_params sample_con [] []
     = (Inr [], [Pragma_table_info, Select_star Always_false (Some 1)])"
proof -
  have "return_limit (limit_return_rows capped_params) = Some 1" by code_simp
  then show ?thesis
    using search_by_seed_name_empty [of sample_lib tiered_thresholds capped_params sample_con "[]"]
    by simp
qed

subsection \<open>C10: verification ignores the phonetic key and the PAN\<close>

text \<open>
  C10.  Two candidate rows that agree on normalized name, address and mobile get the same
  verdict from \<open>verify_candidate\<close>, whatever their \<open>name_phonetic\<close> and
  \<open>pan_upper\<close> fields are.
\<close>

theorem verify_candidate_ignores_phonetic_and_pan:
  assumes "name_of r1 = name_of r2" and "address_of r1 = address_of r2"
    and "mobile_of r1 = mobile_of r2"
  shows "verify_candidate L TH base_names r1 = verify_candidate L TH base_names r2"
proof -
  obtain n1 p1 a1 m1 q1 where r1: "r1 = (n1, p1, a1, m1, q1)" by (cases r1)
  obtain n2 p2 a2 m2 q2 where r2: "r2 = (n2, p2, a2, m2, q2)" by (cases r2)
  from assms show ?thesis unfolding r1 r2 by simp
qed

theorem verify_candidate_ignores_phonetic_and_pan_witness:
  "verify_candidate sample_lib tiered_thresholds [ascii ''ac'']
     (Some (ascii ''ab''), Some (ascii ''AP''), None, Some (ascii ''98''), Some (ascii ''ABCDE1234F''))
   = verify_candidate sample_lib tiered_thresholds [ascii ''ac'']
     (Some (ascii ''ab''), None, None, Some (ascii ''98''), Some (ascii ''ZZZZZ9999Z''))
   \<and> verify_candidate sample_lib tiered_thresholds [ascii ''ac'']
     (Some (ascii ''ab''), None, None, Some (ascii ''98''), Some (ascii ''ZZZZZ9999Z''))"
proof -
  have "verify_candidate sample_lib tiered_thresholds [ascii ''ac'']
     (Some (ascii ''ab''), None, None, Some (ascii ''98''), Some (ascii ''ZZZZZ9999Z''))"
    by code_simp
  then show ?thesis
    using verify_candidate_ignores_phonetic_and_pan
      [of "(Some (ascii ''ab''), Some (ascii ''AP''), None, Some (ascii ''98''), Some (ascii ''ABCDE1234F''))"
          "(Some (ascii ''ab''), None, None, Some (ascii ''98''), Some (ascii ''ZZZZZ9999Z''))"
          sample_lib tiered_thresholds "[ascii ''ac'']"]
    by simp
qed

end
